theory Spec2Isabelle
  imports Complex_Main "HOL-Library.Word"
begin

section \<open>JavaScript values\<close>

subsection \<open>Strings\<close>

text \<open>
  A JavaScript string is a sequence of UTF-16 code units. The sanitizers of
  \<^verbatim>\<open>fal-sync.ts\<close> and \<^verbatim>\<open>api-client.ts\<close> use the regular expression
  \<^verbatim>\<open>/[\uD800-\uDFFF]/g\<close>, which has no \<^verbatim>\<open>u\<close> flag and therefore matches single
  code units, so strings are modelled at that level.
\<close>

type_synonym jsstring = "16 word list"

text \<open>The code units of an ASCII literal of the source.\<close>

definition js :: "string \<Rightarrow> jsstring" where
  "js s = map of_char s"

text \<open>\<^verbatim>\<open>s.includes(t)\<close>: \<open>t\<close> occurs in \<open>s\<close> as a contiguous run of code units.\<close>

fun startsWith :: "jsstring \<Rightarrow> jsstring \<Rightarrow> bool" where
  "startsWith s [] = True"
| "startsWith [] (c # t) = False"
| "startsWith (x # s) (c # t) = (x = c \<and> startsWith s t)"

fun js_includes :: "jsstring \<Rightarrow> jsstring \<Rightarrow> bool" where
  "js_includes [] t = (t = [])"
| "js_includes (x # s) t = (startsWith (x # s) t \<or> js_includes s t)"

text \<open>
  \<^verbatim>\<open>s.toLowerCase()\<close> on the letters A to Z. Code units outside ASCII are left as
  they are: the only non-ASCII characters whose lower case contains an ASCII letter
  are U+212A (k) and U+0130 (i followed by U+0307), and no keyword of
  \<open>detectTaskType\<close> contains a k or has an i at its end, so the classification
  does not depend on them.
\<close>

definition toLowerCase :: "jsstring \<Rightarrow> jsstring" where
  "toLowerCase s = map (\<lambda>u. if 0x41 \<le> u \<and> u \<le> 0x5A then u + 0x20 else u) s"

subsection \<open>Numbers\<close>

text \<open>
  A JavaScript number is an IEEE 754 double: not-a-number, an infinity, the
  negative zero, or a finite value (\<open>Fin 0\<close> is the positive zero). A finite
  double is the real number it stands for; the results of the operations below
  are doubles when their arguments are.
\<close>

datatype jsnumber = NaN | PosInf | NegInf | NegZero | Fin real

text \<open>
  Rounding a real to the nearest double, ties to the even significand, as every
  arithmetic operation and every decimal literal does: 53 bits of significand,
  the least exponent \<open>- 1074\<close> (subnormal numbers), overflow to an infinity from
  \<open>2 ^ 1024\<close>. \<open>bits n\<close> is the length of \<open>n\<close> in binary, \<open>ilog2 a\<close> the
  integer \<open>k\<close> with \<open>2 ^ k \<le> a < 2 ^ (k + 1)\<close> for \<open>a > 0\<close>.
\<close>

fun bits :: "nat \<Rightarrow> nat" where
  "bits n = (if n = 0 then 0 else Suc (bits (n div 2)))"

declare bits.simps [simp del]

definition pow2 :: "int \<Rightarrow> real" where
  "pow2 e = (if 0 \<le> e then 2 ^ nat e else 1 / 2 ^ nat (- e))"

definition ilog2 :: "real \<Rightarrow> int" where
  "ilog2 a = (if 1 \<le> a then int (bits (nat \<lfloor>a\<rfloor>)) - 1
              else - int (bits (nat (\<lceil>1 / a\<rceil> - 1))))"

definition roundHalfEven :: "real \<Rightarrow> int" where
  "roundHalfEven x =
     (let f = \<lfloor>x\<rfloor>; d = x - of_int f
      in if d < 1 / 2 then f
         else if 1 / 2 < d then f + 1
         else if even f then f else f + 1)"

definition roundToDouble :: "real \<Rightarrow> jsnumber" where
  "roundToDouble q =
     (if q = 0 then Fin 0
      else let a = \<bar>q\<bar>;
               e = max (ilog2 a - 52) (- 1074);
               m = roundHalfEven (a / pow2 e);
               v = of_int m * pow2 e
           in if pow2 1024 \<le> v then (if 0 < q then PosInf else NegInf)
              else if m = 0 then (if 0 < q then Fin 0 else NegZero)
              else Fin (if 0 < q then v else - v))"

definition isZero :: "jsnumber \<Rightarrow> bool" where
  "isZero x = (x = Fin 0 \<or> x = NegZero)"

definition isInfinite :: "jsnumber \<Rightarrow> bool" where
  "isInfinite x = (x = PosInf \<or> x = NegInf)"

definition negative :: "jsnumber \<Rightarrow> bool" where
  "negative x = (case x of NegInf \<Rightarrow> True | NegZero \<Rightarrow> True | Fin q \<Rightarrow> q < 0 | _ \<Rightarrow> False)"


definition valueOf :: "jsnumber \<Rightarrow> real" where
  "valueOf x = (case x of Fin q \<Rightarrow> q | _ \<Rightarrow> 0)"

text \<open>
  \<^verbatim>\<open>x / y\<close>: the special cases of IEEE division, and else the exact quotient
  rounded.
\<close>

definition js_div :: "jsnumber \<Rightarrow> jsnumber \<Rightarrow> jsnumber" where
  "js_div x y =
     (if x = NaN \<or> y = NaN then NaN
      else if isInfinite x then
        (if isInfinite y then NaN
         else if negative x \<noteq> negative y then NegInf else PosInf)
      else if isInfinite y then
        (if negative x \<noteq> negative y then NegZero else Fin 0)
      else if isZero y then
        (if isZero x then NaN
         else if negative x \<noteq> negative y then NegInf else PosInf)
      else if isZero x then
        (if negative x \<noteq> negative y then NegZero else Fin 0)
      else roundToDouble (valueOf x / valueOf y))"

text \<open>\<^verbatim>\<open>Math.ceil(x)\<close>: exact on a double; a value in \<open>(- 1, 0)\<close> gives the negative zero.\<close>

definition Math_ceil :: "jsnumber \<Rightarrow> jsnumber" where
  "Math_ceil x =
     (case x of
        Fin q \<Rightarrow> if - 1 < q \<and> q < 0 then NegZero else Fin (of_int \<lceil>q\<rceil>)
      | _ \<Rightarrow> x)"

text \<open>
  \<^verbatim>\<open>Math.max(x, y)\<close>: not-a-number if an argument is, and else the larger, the
  negative zero being less than the positive.
\<close>

definition js_less :: "jsnumber \<Rightarrow> jsnumber \<Rightarrow> bool" where
  "js_less x y =
     (case (x, y) of
        (NaN, _) \<Rightarrow> False
      | (_, NaN) \<Rightarrow> False
      | (_, NegInf) \<Rightarrow> False
      | (NegInf, _) \<Rightarrow> True
      | (PosInf, _) \<Rightarrow> False
      | (_, PosInf) \<Rightarrow> True
      | (NegZero, NegZero) \<Rightarrow> False
      | (NegZero, Fin q) \<Rightarrow> 0 \<le> q
      | (Fin p, NegZero) \<Rightarrow> p < 0
      | (Fin p, Fin q) \<Rightarrow> p < q)"

definition Math_max :: "jsnumber \<Rightarrow> jsnumber \<Rightarrow> jsnumber" where
  "Math_max x y = (if x = NaN \<or> y = NaN then NaN else if js_less x y then y else x)"

subsection \<open>Value trees\<close>

text \<open>
  The value trees the sanitizers walk (\<^verbatim>\<open>any\<close> in the source): what
  \<^verbatim>\<open>JSON.parse\<close> and object literals produce. An object is its prototype and the
  list of its own enumerable properties, with distinct keys, in the order
  \<^verbatim>\<open>Object.entries\<close> lists them; an object that was parsed or written as a
  literal has the prototype \<open>ObjectPrototype\<close>.
\<close>

datatype 'a prototype = ObjectPrototype | NullPrototype | Prototype 'a

datatype jsvalue =
    JUndefined
  | JNull
  | JBoolean bool
  | JNumber jsnumber
  | JString jsstring
  | JArray "jsvalue list"
  | JObject "jsvalue prototype" "(jsstring \<times> jsvalue) list"

text \<open>Truthiness, as \<^verbatim>\<open>!v\<close> and \<^verbatim>\<open>v ? a : b\<close> test it.\<close>

definition truthyValue :: "jsvalue \<Rightarrow> bool" where
  "truthyValue v =
     (case v of
        JUndefined \<Rightarrow> False
      | JNull \<Rightarrow> False
      | JBoolean b \<Rightarrow> b
      | JNumber n \<Rightarrow> \<not> (isZero n \<or> n = NaN)
      | JString s \<Rightarrow> s \<noteq> []
      | _ \<Rightarrow> True)"

text \<open>
  \<^verbatim>\<open>sanitized[key] = val\<close> for each of the assignments in turn, on a fresh
  \<^verbatim>\<open>{}\<close>: the key \<^verbatim>\<open>__proto__\<close> is the setter of the prototype, which takes an
  object (an array is one) or \<^verbatim>\<open>null\<close>, ignores any other value, and never
  makes an own property; every other key makes one.
\<close>

definition isObject :: "jsvalue \<Rightarrow> bool" where
  "isObject v = (case v of JArray items \<Rightarrow> True | JObject proto entries \<Rightarrow> True | _ \<Rightarrow> False)"

definition ownAssigned :: "(jsstring \<times> jsvalue) list \<Rightarrow> (jsstring \<times> jsvalue) list" where
  "ownAssigned assignments = filter (\<lambda>(key, val). key \<noteq> js ''__proto__'') assignments"

definition prototypeAssigned :: "(jsstring \<times> jsvalue) list \<Rightarrow> jsvalue prototype" where
  "prototypeAssigned assignments =
     (case find (\<lambda>(key, val). key = js ''__proto__'') assignments of
        None \<Rightarrow> ObjectPrototype
      | Some (key, val) \<Rightarrow>
          if isObject val then Prototype val
          else if val = JNull then NullPrototype
          else ObjectPrototype)"

definition assignAll :: "(jsstring \<times> jsvalue) list \<Rightarrow> jsvalue" where
  "assignAll assignments = JObject (prototypeAssigned assignments) (ownAssigned assignments)"

section \<open>Sanitizer\<close>

text \<open>The character class \<^verbatim>\<open>[\uD800-\uDFFF]\<close>.\<close>

definition isSurrogate :: "16 word \<Rightarrow> bool" where
  "isSurrogate u = (0xD800 \<le> u \<and> u \<le> 0xDFFF)"

text \<open>\<^verbatim>\<open>str.replace(/[\uD800-\uDFFF]/g, '')\<close>\<close>

definition replaceSurrogates :: "jsstring \<Rightarrow> jsstring" where
  "replaceSurrogates str = filter (\<lambda>u. \<not> isSurrogate u) str"

text \<open>
  \<^verbatim>\<open>fal-sync.ts\<close>, lines 36 to 40. \<open>None\<close> is \<^verbatim>\<open>null\<close> or \<^verbatim>\<open>undefined\<close>;
  \<^verbatim>\<open>!str\<close> is also true of the empty string.
\<close>

definition sanitizeString :: "jsstring option \<Rightarrow> jsstring option" where
  "sanitizeString str =
     (case str of
        None \<Rightarrow> None
      | Some s \<Rightarrow> if s = [] then None else Some (replaceSurrogates s))"

text \<open>\<^verbatim>\<open>fal-sync.ts\<close>, lines 45 to 60.\<close>

fun sanitizeValue :: "jsvalue \<Rightarrow> jsvalue" where
  "sanitizeValue (JString s) =
     (case sanitizeString (Some s) of None \<Rightarrow> JNull | Some t \<Rightarrow> JString t)"
| "sanitizeValue (JArray items) = JArray (map sanitizeValue items)"
| "sanitizeValue (JObject proto entries) =
     assignAll (map (\<lambda>(key, val). (key, sanitizeValue val)) entries)"
| "sanitizeValue JUndefined = JUndefined"
| "sanitizeValue JNull = JNull"
| "sanitizeValue (JBoolean b) = JBoolean b"
| "sanitizeValue (JNumber n) = JNumber n"

text \<open>\<^verbatim>\<open>api-client.ts\<close>, lines 160 to 164: the client's own \<^verbatim>\<open>sanitizeString\<close>.\<close>

definition client_sanitizeString :: "jsstring \<Rightarrow> jsstring" where
  "client_sanitizeString str = replaceSurrogates str"

text \<open>\<^verbatim>\<open>api-client.ts\<close>, lines 169 to 187.\<close>

fun sanitizeObject :: "jsvalue \<Rightarrow> jsvalue" where
  "sanitizeObject (JString s) = JString (client_sanitizeString s)"
| "sanitizeObject (JArray items) = JArray (map sanitizeObject items)"
| "sanitizeObject (JObject proto entries) =
     assignAll (map (\<lambda>(key, val). (key, sanitizeObject val)) entries)"
| "sanitizeObject JUndefined = JUndefined"
| "sanitizeObject JNull = JNull"
| "sanitizeObject (JBoolean b) = JBoolean b"
| "sanitizeObject (JNumber n) = JNumber n"

text \<open>
  A code unit that is half of a well-formed surrogate pair: a high surrogate
  directly followed by a low one. \<open>pairedAt s i\<close> says that the unit at index
  \<open>i\<close> of \<open>s\<close> belongs to such a pair.
\<close>

definition isHighSurrogate :: "16 word \<Rightarrow> bool" where
  "isHighSurrogate u = (0xD800 \<le> u \<and> u \<le> 0xDBFF)"

definition isLowSurrogate :: "16 word \<Rightarrow> bool" where
  "isLowSurrogate u = (0xDC00 \<le> u \<and> u \<le> 0xDFFF)"

definition pairedAt :: "jsstring \<Rightarrow> nat \<Rightarrow> bool" where
  "pairedAt s i =
     (i < length s \<and>
      ((isHighSurrogate (s ! i) \<and> Suc i < length s \<and> isLowSurrogate (s ! Suc i)) \<or>
       (isLowSurrogate (s ! i) \<and> 0 < i \<and> isHighSurrogate (s ! (i - 1)))))"

text \<open>A tree none of whose objects has an own property named \<^verbatim>\<open>__proto__\<close>.\<close>

fun protoFree :: "jsvalue \<Rightarrow> bool" where
  "protoFree (JArray items) = list_all protoFree items"
| "protoFree (JObject proto entries) =
     list_all (\<lambda>(key, val). key \<noteq> js ''__proto__'' \<and> protoFree val) entries"
| "protoFree v = True"

section \<open>Task type and credit cost\<close>

datatype TaskType = IMAGE | VIDEO | AUDIO | TEXT | MULTIMODAL

text \<open>\<^verbatim>\<open>fal-sync.ts\<close>, lines 101 to 110.\<close>

definition detectTaskType :: "jsstring \<Rightarrow> TaskType" where
  "detectTaskType modelId =
     (let lower = toLowerCase modelId in
      if js_includes lower (js ''video'') then VIDEO
      else if js_includes lower (js ''audio'') \<or> js_includes lower (js ''sound'') \<or>
              js_includes lower (js ''music'') \<or> js_includes lower (js ''speech'') then AUDIO
      else if js_includes lower (js ''text'') \<or> js_includes lower (js ''caption'') \<or>
              js_includes lower (js ''llm'') then TEXT
      else if js_includes lower (js ''image'') \<or> js_includes lower (js ''flux'') \<or>
              js_includes lower (js ''stable'') then IMAGE
      else MULTIMODAL)"

text \<open>
  The classifier as the specification words it: keyword groups in a fixed priority
  order, the first group with a matching keyword wins, \<open>MULTIMODAL\<close> when none does.
\<close>

definition keyword_groups :: "(TaskType \<times> jsstring list) list" where
  "keyword_groups =
     [(VIDEO, [js ''video'']),
      (AUDIO, [js ''audio'', js ''sound'', js ''music'', js ''speech'']),
      (TEXT, [js ''text'', js ''caption'', js ''llm'']),
      (IMAGE, [js ''image'', js ''flux'', js ''stable''])]"

fun matches_any :: "jsstring \<Rightarrow> jsstring list \<Rightarrow> bool" where
  "matches_any s [] = False"
| "matches_any s (kw # kws) = (js_includes s kw \<or> matches_any s kws)"

fun first_match :: "(TaskType \<times> jsstring list) list \<Rightarrow> jsstring \<Rightarrow> TaskType" where
  "first_match [] s = MULTIMODAL"
| "first_match ((t, kws) # groups) s =
     (if matches_any s kws then t else first_match groups s)"

text \<open>\<^verbatim>\<open>fal-sync.ts\<close>, lines 139 to 141.\<close>

definition calculateCreditCost :: "jsnumber \<Rightarrow> jsnumber \<Rightarrow> jsnumber" where
  "calculateCreditCost priceUSD creditRate =
     Math_max (Fin 1) (Math_ceil (js_div priceUSD creditRate))"

section \<open>Remote catalog client\<close>

text \<open>
  The records of \<^verbatim>\<open>types.ts\<close>, as the client and the orchestrator use them.
  A field the code tests for presence is an \<open>option\<close>.
\<close>

record Endpoint =
  endpoint_id :: jsstring

record FalMetadata =
  display_name :: "jsstring option"
  description :: "jsstring option"
  category :: "jsstring option"
  status :: "jsstring option"

record FalModel = Endpoint +
  metadata :: "FalMetadata option"
  openapi :: "jsvalue option"

record FalPricingItem = Endpoint +
  unit_price :: jsnumber
  unit :: jsstring
  currency :: jsstring

record Paged =
  next_cursor :: "jsstring option"
  has_more :: bool

record ModelsPage = Paged +
  models :: "FalModel list option"

record FalPricingResponse = Paged +
  prices :: "FalPricingItem list option"

text \<open>
  \<^verbatim>\<open>request<T>\<close> (lines 28 to 80) either resolves to the parsed body or throws an
  \<^verbatim>\<open>Error\<close>; its callers look at the message only.
\<close>

datatype 'a reply = Response 'a | Failure jsstring

text \<open>Truthiness of a cursor: \<^verbatim>\<open>null\<close> and the empty string are falsy.\<close>

definition truthy :: "jsstring option \<Rightarrow> bool" where
  "truthy c = (case c of None \<Rightarrow> False | Some s \<Rightarrow> s \<noteq> [])"

subsection \<open>fetchModels\<close>

text \<open>
  The provider answers the \<open>n\<close>-th request of a run, given the \<^verbatim>\<open>expand\<close> flag
  and the cursor the request carries.
\<close>

type_synonym models_server = "nat \<Rightarrow> bool \<Rightarrow> jsstring option \<Rightarrow> ModelsPage reply"

text \<open>
  The \<^verbatim>\<open>do ... while (cursor)\<close> loop of lines 94 to 134; \<open>None\<close> is a run that
  never leaves the loop. On a 400 with schemas requested the handler returns
  \<^verbatim>\<open>this.fetchModels(false)\<close>: a fresh loop without the flag, from an empty list.
  The result is \<open>Inl\<close> of the message of the error that left the loop.
\<close>

partial_function (option) pageLoop ::
  "models_server \<Rightarrow> bool \<Rightarrow> nat \<Rightarrow> jsstring option \<Rightarrow> FalModel list \<Rightarrow>
   (jsstring + FalModel list) option"
where
  "pageLoop server includeSchemas n cursor allModels =
     (case server n includeSchemas cursor of
        Response response \<Rightarrow>
          (let allModels' = (case models response of
                               Some ms \<Rightarrow> allModels @ ms
                             | None \<Rightarrow> allModels);
               cursor' = (if has_more response then next_cursor response else None)
           in if truthy cursor'
              then pageLoop server includeSchemas (Suc n) cursor' allModels'
              else Some (Inr allModels'))
      | Failure message \<Rightarrow>
          if includeSchemas \<and> js_includes message (js ''400'')
          then pageLoop server False (Suc n) None []
          else Some (Inl message))"

text \<open>
  Lines 86 to 148. The outer handler wraps the message. The restarted call wraps
  its own failure and the caller, which returns that promise without awaiting it,
  does not wrap it again, so every failure is wrapped once.
\<close>

definition fetchModels :: "models_server \<Rightarrow> bool \<Rightarrow> (jsstring + FalModel list) option" where
  "fetchModels server includeSchemas =
     (case pageLoop server includeSchemas 0 None [] of
        None \<Rightarrow> None
      | Some (Inl message) \<Rightarrow> Some (Inl (js ''Failed to fetch models: '' @ message))
      | Some (Inr allModels) \<Rightarrow> Some (Inr allModels))"

text \<open>The models a page contributes: none when it carries no \<^verbatim>\<open>models\<close> array.\<close>

definition pageModels :: "ModelsPage \<Rightarrow> FalModel list" where
  "pageModels page = (case models page of Some ms \<Rightarrow> ms | None \<Rightarrow> [])"

subsection \<open>fetchPricing\<close>

text \<open>Lines 192 to 202.\<close>

definition sanitizePrice :: "FalPricingItem \<Rightarrow> FalPricingItem" where
  "sanitizePrice price =
     price\<lparr>endpoint_id := client_sanitizeString (endpoint_id price),
           unit := client_sanitizeString (unit price),
           currency := client_sanitizeString (currency price)\<rparr>"

definition sanitizePricingResponse :: "FalPricingResponse \<Rightarrow> FalPricingResponse" where
  "sanitizePricingResponse response =
     response\<lparr>prices := map_option (map sanitizePrice) (prices response)\<rparr>"

definition pricesOf :: "FalPricingResponse \<Rightarrow> FalPricingItem list" where
  "pricesOf response = (case prices response of Some ps \<Rightarrow> ps | None \<Rightarrow> [])"

text \<open>
  What a run does that can be observed from outside: the batches it requests and
  the pauses it makes, in order.
\<close>

datatype event = Request "jsstring list" | Sleep nat

record pricing_run =
  allPrices :: "FalPricingItem list"
  requests :: nat
  events :: "event list"

type_synonym pricing_server = "nat \<Rightarrow> jsstring list \<Rightarrow> FalPricingResponse reply"

definition batchSize :: nat where
  "batchSize = 50"

definition maxRetries :: nat where
  "maxRetries = 3"

definition isRateLimit :: "jsstring \<Rightarrow> bool" where
  "isRateLimit message = (js_includes message (js ''429'') \<or> js_includes message (js ''Rate limit''))"

definition isNotFound :: "jsstring \<Rightarrow> bool" where
  "isNotFound message = (js_includes message (js ''404'') \<or> js_includes message (js ''not found''))"

text \<open>\<^verbatim>\<open>xs.slice(a, b)\<close> for \<open>a \<le> b\<close>.\<close>

definition slice :: "'a list \<Rightarrow> nat \<Rightarrow> nat \<Rightarrow> 'a list" where
  "slice xs a b = take (b - a) (drop a xs)"

text \<open>
  The \<^verbatim>\<open>while (retries <= maxRetries && !success)\<close> loop of lines 230 to 261 for
  one batch. It ends with the run so far and the error that was thrown, if any;
  leaving the loop with \<^verbatim>\<open>success\<close> set is the result \<open>(run, None)\<close>. A body
  without a \<^verbatim>\<open>prices\<close> array neither sets \<^verbatim>\<open>success\<close> nor counts as a retry.
\<close>

partial_function (option) retryLoop ::
  "pricing_server \<Rightarrow> jsstring list \<Rightarrow> nat \<Rightarrow> pricing_run \<Rightarrow>
   (pricing_run \<times> jsstring option) option"
where
  "retryLoop server batch retries run =
     (if retries \<le> maxRetries then
        (let sent = run\<lparr>requests := Suc (requests run),
                        events := events run @ [Request batch]\<rparr>
         in case server (requests run) batch of
              Response response \<Rightarrow>
                (case prices response of
                   Some ps \<Rightarrow>
                     Some (sent\<lparr>allPrices := allPrices sent @
                                   pricesOf (sanitizePricingResponse response)\<rparr>, None)
                 | None \<Rightarrow> retryLoop server batch retries sent)
            | Failure message \<Rightarrow>
                if isRateLimit message then
                  (if Suc retries \<le> maxRetries
                   then retryLoop server batch (Suc retries)
                          (sent\<lparr>events := events sent @ [Sleep (2 ^ Suc retries * 1000)]\<rparr>)
                   else Some (sent, Some message))
                else if isNotFound message then Some (sent, None)
                else Some (sent, Some message))
      else Some (run, None))"

text \<open>The \<^verbatim>\<open>for\<close> loop over the batches, lines 218 to 267.\<close>

function forLoop ::
  "pricing_server \<Rightarrow> jsstring list \<Rightarrow> nat \<Rightarrow> pricing_run \<Rightarrow>
   (pricing_run \<times> jsstring option) option"
where
  "forLoop server endpointIds i run =
     (if i < length endpointIds then
        (case retryLoop server (slice endpointIds i (i + batchSize)) 0 run of
           None \<Rightarrow> None
         | Some (run', Some error) \<Rightarrow> Some (run', Some error)
         | Some (run', None) \<Rightarrow>
             forLoop server endpointIds (i + batchSize)
               (if i + batchSize < length endpointIds
                then run'\<lparr>events := events run' @ [Sleep 5000]\<rparr>
                else run'))
      else Some (run, None))"
  by pat_completeness auto
termination
  by (relation "measure (\<lambda>(server, endpointIds, i, run). length endpointIds - i)")
     (auto simp: batchSize_def)

declare forLoop.simps [simp del]

text \<open>Line 212: nothing fetched, nothing requested yet.\<close>

definition startOfRun :: pricing_run where
  "startOfRun = \<lparr>allPrices = [], requests = 0, events = []\<rparr>"

text \<open>
  Lines 208 to 280: the events of the run, with the response returned or the
  message of the error thrown.
\<close>

definition fetchPricing ::
  "pricing_server \<Rightarrow> jsstring list \<Rightarrow> (event list \<times> (jsstring + FalPricingResponse)) option"
where
  "fetchPricing server endpointIds =
     (case forLoop server endpointIds 0 startOfRun of
        None \<Rightarrow> None
      | Some (run, Some error) \<Rightarrow>
          Some (events run, Inl (js ''Failed to fetch pricing: '' @ error))
      | Some (run, None) \<Rightarrow>
          Some (events run,
                Inr \<lparr>next_cursor = None, has_more = False, prices = Some (allPrices run)\<rparr>))"

text \<open>
  Reading a run from outside: the batches requested, and what one reply
  contributes to the result.
\<close>

fun requested :: "event list \<Rightarrow> jsstring list list" where
  "requested [] = []"
| "requested (Request batch # es) = batch # requested es"
| "requested (Sleep ms # es) = requested es"

definition quotesOf :: "FalPricingResponse reply \<Rightarrow> FalPricingItem list" where
  "quotesOf r =
     (case r of
        Response response \<Rightarrow> map sanitizePrice (pricesOf response)
      | Failure message \<Rightarrow> [])"

text \<open>The four kinds of reply a batch request is specified to get.\<close>

definition isSuccess :: "FalPricingResponse reply \<Rightarrow> bool" where
  "isSuccess r = (case r of Response response \<Rightarrow> prices response \<noteq> None | Failure message \<Rightarrow> False)"

definition isRateLimitReply :: "FalPricingResponse reply \<Rightarrow> bool" where
  "isRateLimitReply r = (case r of Response response \<Rightarrow> False | Failure message \<Rightarrow> isRateLimit message)"

definition isNotFoundReply :: "FalPricingResponse reply \<Rightarrow> bool" where
  "isNotFoundReply r =
     (case r of
        Response response \<Rightarrow> False
      | Failure message \<Rightarrow> \<not> isRateLimit message \<and> isNotFound message)"

definition isOtherError :: "FalPricingResponse reply \<Rightarrow> bool" where
  "isOtherError r =
     (case r of
        Response response \<Rightarrow> False
      | Failure message \<Rightarrow> \<not> isRateLimit message \<and> \<not> isNotFound message)"

section \<open>Sync orchestrator\<close>

datatype PricingType = free | fixed

record SyncError =
  model :: jsstring
  error :: jsstring

record SyncResult =
  modelsAdded :: nat
  modelsUpdated :: nat
  parametersAdded :: nat
  pricingUpdated :: nat
  errors :: "SyncError list"
  duration :: nat

text \<open>A thrown value: an \<^verbatim>\<open>Error\<close> with its message, or anything else.\<close>

datatype thrown = ErrorObject jsstring | OtherValue

text \<open>Line 363.\<close>

definition errorMsg :: "thrown \<Rightarrow> jsstring" where
  "errorMsg e = (case e of ErrorObject message \<Rightarrow> message | OtherValue \<Rightarrow> js ''Unknown error'')"

text \<open>
  The store is outside the repository. A call to it resolves to an object with
  \<^verbatim>\<open>data\<close> and \<^verbatim>\<open>error\<close>, or the promise is rejected and \<^verbatim>\<open>await\<close> throws.
  A \<^verbatim>\<open>select(...).single()\<close> resolves to a row or to none (\<^verbatim>\<open>data\<close> is
  \<^verbatim>\<open>null\<close>, also when the store reports an error); a write resolves with or
  without an \<^verbatim>\<open>error\<close>.
\<close>

datatype select_reply = Row | NoRow | SelectRejected thrown

datatype write_reply = Written | WriteError thrown | WriteRejected thrown

text \<open>
  What the surroundings answer while one model is reconciled, one field for each
  call site of lines 249 to 356. \<open>parsed\<close> is the outcome of lines 256 to 258
  and 293 for a model that carries an \<^verbatim>\<open>openapi\<close> document: the number of
  parameters \<^verbatim>\<open>parseSchemaToParameters\<close> returns for the schema extracted from
  the document (\<open>0\<close> when none is extracted, and the parser is not called),
  or what the parser throws; the parser is \<^verbatim>\<open>schema-parser.ts\<close>, which is
  not among the sources.
\<close>

record reconcile_env =
  models_select :: select_reply
  models_write :: write_reply
  parsed :: "thrown + nat"
  parameters_delete :: write_reply
  parameters_insert :: write_reply
  pricing_select :: select_reply
  pricing_write :: write_reply

text \<open>
  The calls a pass issues to the store, with the fields of the written rows that
  the pass computes (the other fields are copied from the model).
\<close>

record pricing_row =
  price_per_call :: jsnumber
  pricing_type :: PricingType
  credit_cost :: jsnumber

datatype store_op =
    SelectModel jsstring
  | UpdateModel jsstring TaskType
  | InsertModel jsstring TaskType
  | DeleteParameters jsstring
  | InsertParameters jsstring nat
  | SelectPricing jsstring
  | UpdatePricing jsstring pricing_row
  | InsertPricing jsstring pricing_row

record pass =
  result :: SyncResult
  issued :: "store_op list"

definition issue :: "store_op \<Rightarrow> pass \<Rightarrow> pass" where
  "issue op p = p\<lparr>issued := issued p @ [op]\<rparr>"

text \<open>\<^verbatim>\<open>a || b\<close> on strings: \<open>b\<close> when \<open>a\<close> is absent or empty.\<close>

definition js_or :: "jsstring option \<Rightarrow> jsstring \<Rightarrow> jsstring" where
  "js_or a b = (case a of None \<Rightarrow> b | Some s \<Rightarrow> if s = [] then b else s)"

text \<open>Line 233.\<close>

definition taskTypeOf :: "FalModel \<Rightarrow> FalMetadata \<Rightarrow> TaskType" where
  "taskTypeOf m md = detectTaskType (js_or (category md) (endpoint_id m))"

text \<open>
  Lines 236 to 246 and 330 to 339. \<^verbatim>\<open>pricing?.unit_price || 0\<close> is \<open>0\<close> when
  there is no quote and when its price is falsy (a zero or not-a-number).
\<close>

definition pricingData :: "jsnumber \<Rightarrow> (jsstring \<rightharpoonup> FalPricingItem) \<Rightarrow> FalModel \<Rightarrow> pricing_row" where
  "pricingData creditRate pricingMap m =
     (let pricing = pricingMap (endpoint_id m);
          pricePerCall = (case pricing of
                            None \<Rightarrow> Fin 0
                          | Some q \<Rightarrow>
                              if isZero (unit_price q) \<or> unit_price q = NaN then Fin 0
                              else unit_price q);
          pricingType = (if isZero pricePerCall then free else fixed);
          creditCost = calculateCreditCost pricePerCall creditRate
      in \<lparr>price_per_call = pricePerCall, pricing_type = pricingType, credit_cost = creditCost\<rparr>)"

text \<open>
  The steps of the \<^verbatim>\<open>try\<close> block. Each takes the pass so far and gives the pass
  after it, with the value it threw, if any.
\<close>

type_synonym step = "pass \<Rightarrow> pass \<times> thrown option"

definition andThen :: "step \<Rightarrow> step \<Rightarrow> step" where
  "andThen f g p = (case f p of (p', None) \<Rightarrow> g p' | (p', Some e) \<Rightarrow> (p', Some e))"

text \<open>Lines 249 to 290.\<close>

definition upsertModel :: "FalModel \<Rightarrow> FalMetadata \<Rightarrow> reconcile_env \<Rightarrow> step" where
  "upsertModel m md env p =
     (let fullModelId = endpoint_id m;
          taskType = taskTypeOf m md;
          p1 = issue (SelectModel fullModelId) p
      in case models_select env of
           SelectRejected e \<Rightarrow> (p1, Some e)
         | Row \<Rightarrow>
             (let p2 = issue (UpdateModel fullModelId taskType) p1
              in case models_write env of
                   WriteRejected e \<Rightarrow> (p2, Some e)
                 | WriteError updateError \<Rightarrow> (p2, Some updateError)
                 | Written \<Rightarrow>
                     (p2\<lparr>result := (result p2)\<lparr>modelsUpdated := modelsUpdated (result p2) + 1\<rparr>\<rparr>,
                      None))
         | NoRow \<Rightarrow>
             (let p2 = issue (InsertModel fullModelId taskType) p1
              in case models_write env of
                   WriteRejected e \<Rightarrow> (p2, Some e)
                 | WriteError insertError \<Rightarrow> (p2, Some insertError)
                 | Written \<Rightarrow>
                     (p2\<lparr>result := (result p2)\<lparr>modelsAdded := modelsAdded (result p2) + 1\<rparr>\<rparr>,
                      None)))"

text \<open>
  Lines 256 to 258 and 293: without an \<^verbatim>\<open>openapi\<close> document (\<^verbatim>\<open>model.openapi\<close>
  is falsy) there is no schema and the list of parameters is empty.
\<close>

definition hasOpenapi :: "FalModel \<Rightarrow> bool" where
  "hasOpenapi m = (case openapi m of None \<Rightarrow> False | Some doc \<Rightarrow> truthyValue doc)"

definition parametersOf :: "FalModel \<Rightarrow> reconcile_env \<Rightarrow> thrown + nat" where
  "parametersOf m env = (if hasOpenapi m then parsed env else Inr 0)"

text \<open>Lines 292 to 327.\<close>

definition replaceParameters :: "FalModel \<Rightarrow> reconcile_env \<Rightarrow> step" where
  "replaceParameters m env p =
     (let fullModelId = endpoint_id m
      in case parametersOf m env of
           Inl e \<Rightarrow> (p, Some e)
         | Inr n \<Rightarrow>
             (let p1 = issue (DeleteParameters fullModelId) p
              in case parameters_delete env of
                   WriteRejected e \<Rightarrow> (p1, Some e)
                 | _ \<Rightarrow>
                     if n > 0 then
                       (let p2 = issue (InsertParameters fullModelId n) p1
                        in case parameters_insert env of
                             WriteRejected e \<Rightarrow> (p2, Some e)
                           | WriteError paramsError \<Rightarrow> (p2, Some paramsError)
                           | Written \<Rightarrow>
                               (p2\<lparr>result := (result p2)
                                     \<lparr>parametersAdded := parametersAdded (result p2) + n\<rparr>\<rparr>,
                                None))
                     else (p1, None)))"

text \<open>
  Lines 329 to 358. The object the two writes resolve to is not looked at: only a
  rejected promise leaves the block.
\<close>

definition upsertPricing ::
  "jsnumber \<Rightarrow> (jsstring \<rightharpoonup> FalPricingItem) \<Rightarrow> FalModel \<Rightarrow> reconcile_env \<Rightarrow> step"
where
  "upsertPricing creditRate pricingMap m env p =
     (let fullModelId = endpoint_id m;
          row = pricingData creditRate pricingMap m;
          p1 = issue (SelectPricing fullModelId) p
      in case pricing_select env of
           SelectRejected e \<Rightarrow> (p1, Some e)
         | existingPricing \<Rightarrow>
             (let p2 = issue (if existingPricing = Row
                              then UpdatePricing fullModelId row
                              else InsertPricing fullModelId row) p1
              in case pricing_write env of
                   WriteRejected e \<Rightarrow> (p2, Some e)
                 | _ \<Rightarrow>
                     (p2\<lparr>result := (result p2)\<lparr>pricingUpdated := pricingUpdated (result p2) + 1\<rparr>\<rparr>,
                      None)))"

text \<open>The \<^verbatim>\<open>try\<close> block of lines 229 to 360, for a model that passed the check of line 220.\<close>

definition tryBlock ::
  "jsnumber \<Rightarrow> (jsstring \<rightharpoonup> FalPricingItem) \<Rightarrow> FalModel \<Rightarrow> FalMetadata \<Rightarrow> reconcile_env \<Rightarrow> step"
where
  "tryBlock creditRate pricingMap m md env =
     andThen (upsertModel m md env)
       (andThen (replaceParameters m env) (upsertPricing creditRate pricingMap m env))"

definition pushError :: "jsstring \<Rightarrow> jsstring \<Rightarrow> pass \<Rightarrow> pass" where
  "pushError modelId message p =
     p\<lparr>result := (result p)\<lparr>errors := errors (result p) @ [\<lparr>model = modelId, error = message\<rparr>]\<rparr>\<rparr>"

text \<open>One turn of the loop of lines 217 to 371, \<^verbatim>\<open>catch\<close> included.\<close>

definition reconcile ::
  "jsnumber \<Rightarrow> (jsstring \<rightharpoonup> FalPricingItem) \<Rightarrow> FalModel \<times> reconcile_env \<Rightarrow> pass \<Rightarrow> pass"
where
  "reconcile creditRate pricingMap me p =
     (let m = fst me; env = snd me
      in case metadata m of
           None \<Rightarrow> pushError (js ''unknown'') (js ''Model missing endpoint_id or metadata'') p
         | Some md \<Rightarrow>
             if endpoint_id m = []
             then pushError (js ''unknown'') (js ''Model missing endpoint_id or metadata'') p
             else (case tryBlock creditRate pricingMap m md env p of
                     (p', None) \<Rightarrow> p'
                   | (p', Some e) \<Rightarrow>
                       pushError (js_or (Some (endpoint_id m)) (js ''unknown'')) (errorMsg e) p'))"

text \<open>The loop over the fetched models, each with what its surroundings answer.\<close>

fun processModels ::
  "jsnumber \<Rightarrow> (jsstring \<rightharpoonup> FalPricingItem) \<Rightarrow> (FalModel \<times> reconcile_env) list \<Rightarrow> pass \<Rightarrow> pass"
where
  "processModels creditRate pricingMap [] p = p"
| "processModels creditRate pricingMap (me # rest) p =
     processModels creditRate pricingMap rest (reconcile creditRate pricingMap me p)"

text \<open>Lines 148 to 155.\<close>

definition initialResult :: SyncResult where
  "initialResult =
     \<lparr>modelsAdded = 0, modelsUpdated = 0, parametersAdded = 0, pricingUpdated = 0,
      errors = [], duration = 0\<rparr>"

definition emptyPass :: pass where
  "emptyPass = \<lparr>result = initialResult, issued = []\<rparr>"

definition syncPass ::
  "jsnumber \<Rightarrow> (jsstring \<rightharpoonup> FalPricingItem) \<Rightarrow> (FalModel \<times> reconcile_env) list \<Rightarrow> pass"
where
  "syncPass creditRate pricingMap ms = processModels creditRate pricingMap ms emptyPass"

section \<open>Notions the properties are stated with\<close>

text \<open>
  The cursor the \<open>k\<close>-th request of a fetch carries when the pages before it
  were \<open>pages\<close>: none on the first request, then the cursor of the page before.
\<close>

definition cursorBefore :: "ModelsPage list \<Rightarrow> nat \<Rightarrow> jsstring option" where
  "cursorBefore pages k = (if k = 0 then None else next_cursor (pages ! (k - 1)))"

text \<open>
  The \<open>j\<close>-th batch of a list of endpoint ids, and the number of batches: the
  values \<^verbatim>\<open>endpointIds.slice(i, i + batchSize)\<close> and \<^verbatim>\<open>totalBatches\<close>
  (lines 216 and 220) take.
\<close>

definition batchAt :: "jsstring list \<Rightarrow> nat \<Rightarrow> jsstring list" where
  "batchAt ids j = slice ids (j * batchSize) (j * batchSize + batchSize)"

definition batchCount :: "jsstring list \<Rightarrow> nat" where
  "batchCount ids = (length ids + (batchSize - 1)) div batchSize"

text \<open>The replies a run got: the \<open>n\<close>-th request of the run carried the \<open>n\<close>-th batch requested.\<close>

definition repliesTo :: "pricing_server \<Rightarrow> event list \<Rightarrow> FalPricingResponse reply list" where
  "repliesTo server es = map (\<lambda>(n, batch). server n batch) (enumerate 0 (requested es))"

text \<open>
  A reply of one of the four specified kinds; the one reply that is of none is a
  body without a \<^verbatim>\<open>prices\<close> array. A reply that ends the work on its batch at
  the first attempt is a success or a not-found.
\<close>

definition specified :: "FalPricingResponse reply \<Rightarrow> bool" where
  "specified r = (isSuccess r \<or> isRateLimitReply r \<or> isNotFoundReply r \<or> isOtherError r)"

definition answersAtOnce :: "FalPricingResponse reply \<Rightarrow> bool" where
  "answersAtOnce r = (isSuccess r \<or> isNotFoundReply r)"

text \<open>
  The invariant of a run: the counter counts the requests made, and the prices
  collected are the quotes of the replies so far.
\<close>

definition consistent :: "pricing_server \<Rightarrow> pricing_run \<Rightarrow> bool" where
  "consistent server run =
     (requests run = length (requested (events run)) \<and>
      allPrices run = concat (map quotesOf (repliesTo server (events run))))"

text \<open>
  What a pass is specified to record for one model, read off the model and what
  its surroundings answer. A model is valid when it passes the check of line 220.
  The first step that throws decides the error: the write of the model row (a
  rejected call or a returned error), then the parameters (the parser, a rejected
  delete, a rejected or failed insert), then the pricing record (a rejected call).
\<close>

definition valid :: "FalModel \<Rightarrow> bool" where
  "valid m = (endpoint_id m \<noteq> [] \<and> metadata m \<noteq> None)"

definition modelThrows :: "reconcile_env \<Rightarrow> thrown option" where
  "modelThrows env =
     (case models_select env of
        SelectRejected e \<Rightarrow> Some e
      | _ \<Rightarrow>
          (case models_write env of
             Written \<Rightarrow> None
           | WriteError e \<Rightarrow> Some e
           | WriteRejected e \<Rightarrow> Some e))"

definition parametersThrow :: "FalModel \<Rightarrow> reconcile_env \<Rightarrow> thrown option" where
  "parametersThrow m env =
     (case parametersOf m env of
        Inl e \<Rightarrow> Some e
      | Inr n \<Rightarrow>
          (case parameters_delete env of
             WriteRejected e \<Rightarrow> Some e
           | _ \<Rightarrow>
               if n = 0 then None
               else (case parameters_insert env of
                       Written \<Rightarrow> None
                     | WriteError e \<Rightarrow> Some e
                     | WriteRejected e \<Rightarrow> Some e)))"

definition pricingThrows :: "reconcile_env \<Rightarrow> thrown option" where
  "pricingThrows env =
     (case pricing_select env of
        SelectRejected e \<Rightarrow> Some e
      | _ \<Rightarrow> (case pricing_write env of WriteRejected e \<Rightarrow> Some e | _ \<Rightarrow> None))"

definition firstOf :: "thrown option \<Rightarrow> thrown option \<Rightarrow> thrown option" where
  "firstOf a b = (case a of Some e \<Rightarrow> Some e | None \<Rightarrow> b)"

definition thrownBy :: "FalModel \<Rightarrow> reconcile_env \<Rightarrow> thrown option" where
  "thrownBy m env =
     firstOf (modelThrows env) (firstOf (parametersThrow m env) (pricingThrows env))"

text \<open>
  The error entries of a model: the fixed entry for an invalid model, and for a
  valid one an entry with its id and the message of what was thrown, if anything.
\<close>

definition errorEntries :: "FalModel \<times> reconcile_env \<Rightarrow> SyncError list" where
  "errorEntries me =
     (if valid (fst me) then
        (case thrownBy (fst me) (snd me) of
           None \<Rightarrow> []
         | Some e \<Rightarrow> [\<lparr>model = endpoint_id (fst me), error = errorMsg e\<rparr>])
      else [\<lparr>model = js ''unknown'', error = js ''Model missing endpoint_id or metadata''\<rparr>])"

text \<open>
  A model completes when it is valid and nothing is thrown. Its row is inserted
  or updated when it is valid and that write succeeds, and its parameters are
  inserted when moreover the parameter step throws nothing, whatever happens to
  its pricing record afterwards.
\<close>

definition completes :: "FalModel \<times> reconcile_env \<Rightarrow> bool" where
  "completes me = (valid (fst me) \<and> thrownBy (fst me) (snd me) = None)"

definition rowInserted :: "FalModel \<times> reconcile_env \<Rightarrow> bool" where
  "rowInserted me =
     (valid (fst me) \<and> models_select (snd me) = NoRow \<and> models_write (snd me) = Written)"

definition rowUpdated :: "FalModel \<times> reconcile_env \<Rightarrow> bool" where
  "rowUpdated me =
     (valid (fst me) \<and> models_select (snd me) = Row \<and> models_write (snd me) = Written)"

definition parametersInserted :: "FalModel \<times> reconcile_env \<Rightarrow> nat" where
  "parametersInserted me =
     (if valid (fst me) \<and> modelThrows (snd me) = None \<and> parametersThrow (fst me) (snd me) = None
      then (case parametersOf (fst me) (snd me) of Inr n \<Rightarrow> n | Inl e \<Rightarrow> 0)
      else 0)"

text \<open>
  The lookups of model rows among the calls of a pass; the \<^verbatim>\<open>try\<close> block of
  every valid model starts with one.
\<close>

definition isSelectModel :: "store_op \<Rightarrow> bool" where
  "isSelectModel op = (case op of SelectModel i \<Rightarrow> True | _ \<Rightarrow> False)"

text \<open>
  Example inputs. A model with an id, metadata and an \<^verbatim>\<open>openapi\<close> document whose
  request schema has the two properties \<^verbatim>\<open>prompt\<close> and \<^verbatim>\<open>seed\<close>; the
  surroundings in which every call succeeds, no row exists yet and the schema
  gives two parameters; a pass over three models where the insert of the
  parameters of the second fails; a pass over two models where the lookup of
  the pricing record of the second is rejected; and a pass over four models,
  the second as before, the third without an \<^verbatim>\<open>openapi\<close> document and with a
  row in the store, the fourth without metadata.
\<close>

definition exampleSchema :: jsvalue where
  "exampleSchema =
     JObject ObjectPrototype
       [(js ''type'', JString (js ''object'')),
        (js ''properties'',
         JObject ObjectPrototype
           [(js ''prompt'', JObject ObjectPrototype [(js ''type'', JString (js ''string''))]),
            (js ''seed'', JObject ObjectPrototype [(js ''type'', JString (js ''integer''))])])]"

definition exampleOpenapi :: jsvalue where
  "exampleOpenapi =
     JObject ObjectPrototype
       [(js ''paths'',
         JObject ObjectPrototype
           [(js ''/'',
             JObject ObjectPrototype
               [(js ''post'',
                 JObject ObjectPrototype
                   [(js ''requestBody'',
                     JObject ObjectPrototype
                       [(js ''content'',
                         JObject ObjectPrototype
                           [(js ''application/json'',
                             JObject ObjectPrototype
                               [(js ''schema'', exampleSchema)])])])])])])]"

definition exampleModel :: "jsstring \<Rightarrow> FalModel" where
  "exampleModel i =
     \<lparr>endpoint_id = i,
      metadata = Some \<lparr>display_name = None, description = None, category = None, status = None\<rparr>,
      openapi = Some exampleOpenapi\<rparr>"

definition allWritten :: reconcile_env where
  "allWritten =
     \<lparr>models_select = NoRow, models_write = Written, parsed = Inr 2,
      parameters_delete = Written, parameters_insert = Written,
      pricing_select = NoRow, pricing_write = Written\<rparr>"

definition threeModels :: "(FalModel \<times> reconcile_env) list" where
  "threeModels =
     [(exampleModel (js ''a''), allWritten),
      (exampleModel (js ''b''), allWritten\<lparr>parameters_insert := WriteError (ErrorObject (js ''denied''))\<rparr>),
      (exampleModel (js ''c''), allWritten)]"

definition lateFailure :: "(FalModel \<times> reconcile_env) list" where
  "lateFailure =
     [(exampleModel (js ''a''), allWritten),
      (exampleModel (js ''b''),
       allWritten\<lparr>pricing_select := SelectRejected (ErrorObject (js ''timeout''))\<rparr>)]"

definition mixedPass :: "(FalModel \<times> reconcile_env) list" where
  "mixedPass =
     [(exampleModel (js ''a''), allWritten),
      (exampleModel (js ''b''),
       allWritten\<lparr>pricing_select := SelectRejected (ErrorObject (js ''timeout''))\<rparr>),
      ((exampleModel (js ''c''))\<lparr>openapi := None\<rparr>, allWritten\<lparr>models_select := Row\<rparr>),
      ((exampleModel (js ''d''))\<lparr>metadata := None\<rparr>, allWritten)]"

text \<open>A provider that answers every pricing request with a body that has no \<^verbatim>\<open>prices\<close> array.\<close>

definition noPrices :: pricing_server where
  "noPrices n batch = Response \<lparr>next_cursor = None, has_more = False, prices = None\<rparr>"

section \<open>Properties of the sanitizer\<close>

lemma replaceSurrogates_idem:
  "replaceSurrogates (replaceSurrogates s) = replaceSurrogates s"
  by (simp add: replaceSurrogates_def)

lemma replaceSurrogates_keeps_others:
  "filter (\<lambda>u. \<not> isSurrogate u) (replaceSurrogates s) = filter (\<lambda>u. \<not> isSurrogate u) s"
  by (simp add: replaceSurrogates_def)

lemma replaceSurrogates_no_surrogate:
  "u \<in> set (replaceSurrogates s) \<Longrightarrow> \<not> isSurrogate u"
  by (simp add: replaceSurrogates_def)

text \<open>
  The client's sanitizer is idempotent on every tree without a \<^verbatim>\<open>__proto__\<close>
  key. (With such a key the first pass replaces the prototype of the result,
  and the second pass gives an object with the ordinary prototype again.)
\<close>

lemma assignAll_protoFree:
  "list_all (\<lambda>(key, val). key \<noteq> js ''__proto__'') es \<Longrightarrow> assignAll es = JObject ObjectPrototype es"
  by (induction es) (auto simp: assignAll_def ownAssigned_def prototypeAssigned_def)

lemma sanitizeObject_idem:
  "protoFree v \<Longrightarrow> sanitizeObject (sanitizeObject v) = sanitizeObject v"
proof (induction v rule: sanitizeObject.induct)
  case (3 proto entries)
  let ?es = "map (\<lambda>(key, val). (key, sanitizeObject val)) entries"
  have k: "list_all (\<lambda>(key, val). key \<noteq> js ''__proto__'') ?es"
    using 3(2) by (auto simp: list_all_iff)
  have k2: "list_all (\<lambda>(key, val). key \<noteq> js ''__proto__'')
              (map (\<lambda>(key, val). (key, sanitizeObject val)) ?es)"
    using 3(2) by (auto simp: list_all_iff)
  have "map (\<lambda>(key, val). (key, sanitizeObject val)) ?es = ?es"
    using 3 by (auto simp: list_all_iff)
  then show ?case
    using assignAll_protoFree[OF k] assignAll_protoFree[OF k2] by simp
qed (auto simp: client_sanitizeString_def replaceSurrogates_def list_all_iff)

lemma sanitizeObject_proto_key:
  "sanitizeObject (JObject ObjectPrototype
     [(js ''__proto__'', JObject ObjectPrototype []), (js ''a'', JString [0xD800, 0x41])]) =
   JObject (Prototype (JObject ObjectPrototype [])) [(js ''a'', JString [0x41])]"
  by (simp add: assignAll_def prototypeAssigned_def ownAssigned_def js_def isObject_def
      client_sanitizeString_def replaceSurrogates_def isSurrogate_def)

text \<open>
  The orchestrator's sanitizer turns the empty string into \<^verbatim>\<open>null\<close>, so a string
  made of surrogates only changes twice.
\<close>

lemma sanitizeValue_lone_surrogate:
  "sanitizeValue (JString [0xD800]) = JString [] \<and>
   sanitizeValue (sanitizeValue (JString [0xD800])) = JNull"
  by (simp add: sanitizeString_def replaceSurrogates_def isSurrogate_def)

text \<open>
  C1. The claim: sanitization is idempotent on every value tree and removes
  unpaired surrogate code units only, so that the halves of a valid pair stay.
  Evaluated at the one-character string U+1F600, whose two code units D83D DE00
  form a valid pair: both sanitizers delete both units, and the orchestrator's
  sanitizer applied a second time turns the resulting empty string into
  \<^verbatim>\<open>null\<close>, so it is not idempotent there either.
\<close>

theorem sanitize_deletes_valid_pair:
  "pairedAt [0xD83D, 0xDE00] 0 \<and> pairedAt [0xD83D, 0xDE00] 1 \<and>
   sanitizeObject (JString [0xD83D, 0xDE00]) = JString [] \<and>
   sanitizeValue (JString [0xD83D, 0xDE00]) = JString [] \<and>
   sanitizeValue (sanitizeValue (JString [0xD83D, 0xDE00])) = JNull \<and>
   sanitizeValue (sanitizeValue (JString [0xD83D, 0xDE00])) \<noteq>
     sanitizeValue (JString [0xD83D, 0xDE00])"
  by (simp add: pairedAt_def isHighSurrogate_def isLowSurrogate_def sanitizeString_def
      replaceSurrogates_def isSurrogate_def client_sanitizeString_def)

section \<open>Properties of the credit cost and the task type\<close>

lemma bits_0: "bits 0 = 0"
  by (simp add: bits.simps)

lemma bits_pos: "0 < n \<Longrightarrow> bits n = Suc (bits (n div 2))"
  by (subst bits.simps) simp






lemma credit_of_finite:
  assumes "0 \<le> v"
  shows "Math_max (Fin 1) (Math_ceil (Fin v)) = Fin (max 1 (of_int \<lceil>v\<rceil>))"
proof -
  have c: "Math_ceil (Fin v) = Fin (of_int \<lceil>v\<rceil>)"
    using assms by (simp add: Math_ceil_def)
  show ?thesis
  proof (cases "1 < v")
    case True
    then have "max 1 (of_int \<lceil>v\<rceil>) = (of_int \<lceil>v\<rceil> :: real)"
      by (intro max_absorb2) simp
    then show ?thesis
      unfolding c using True by (simp add: Math_max_def js_less_def)
  next
    case False
    then have "\<lceil>v\<rceil> \<le> 1"
      by (simp add: ceiling_le_iff)
    then have "max 1 (of_int \<lceil>v\<rceil>) = (1 :: real)"
      by (intro max_absorb1) simp
    then show ?thesis
      unfolding c using False by (simp add: Math_max_def js_less_def)
  qed
qed


text \<open>
  Below \<open>2 ^ 53\<close> rounding keeps a real between the integers around it, so the
  cost is the ceiling of the exact quotient, or one less when the division of
  the program rounds the quotient down to the integer below it.
\<close>

lemma bits_bound: "n < 2 ^ k \<Longrightarrow> bits n \<le> k"
proof (induction k arbitrary: n)
  case 0
  then show ?case by (simp add: bits_0)
next
  case (Suc k)
  show ?case
  proof (cases "n = 0")
    case True
    then show ?thesis by (simp add: bits_0)
  next
    case False
    have "n div 2 < 2 ^ k"
      using Suc.prems by simp
    from Suc.IH[OF this] False show ?thesis
      by (simp add: bits_pos)
  qed
qed

lemma ilog2_small:
  assumes "0 < a" and "a < 2 ^ 53"
  shows "ilog2 a \<le> 52"
proof (cases "1 \<le> a")
  case True
  have "\<lfloor>a\<rfloor> < 2 ^ 53"
    using assms(2) by (simp add: floor_less_iff)
  then have "nat \<lfloor>a\<rfloor> < 2 ^ 53"
    using True by (simp add: nat_less_iff)
  from bits_bound[OF this] True show ?thesis
    by (simp add: ilog2_def)
next
  case False
  then show ?thesis
    by (simp add: ilog2_def)
qed

lemma roundHalfEven_ge:
  assumes "of_int n \<le> x"
  shows "n \<le> roundHalfEven x"
proof -
  have "n \<le> \<lfloor>x\<rfloor>"
    using assms by (simp add: le_floor_iff)
  then show ?thesis
    by (simp add: roundHalfEven_def Let_def)
qed

lemma roundHalfEven_le:
  assumes "x \<le> of_int n"
  shows "roundHalfEven x \<le> n"
proof (cases "x = of_int n")
  case True
  then show ?thesis
    by (simp add: roundHalfEven_def)
next
  case False
  then have "x < of_int n"
    using assms by simp
  then have "\<lfloor>x\<rfloor> < n"
    by (simp add: floor_less_iff)
  then show ?thesis
    by (simp add: roundHalfEven_def Let_def)
qed

lemma roundToDouble_bracket:
  assumes x: "0 < x" "x < 2 ^ 53" and lo: "of_int lo \<le> x" and hi: "x \<le> of_int hi"
  shows "\<exists>v. roundToDouble x = Fin v \<and> of_int lo \<le> v \<and> v \<le> of_int hi"
proof -
  define e where "e = max (ilog2 \<bar>x\<bar> - 52) (- 1074)"
  define j where "j = nat (- e)"
  define m where "m = roundHalfEven (\<bar>x\<bar> / pow2 e)"
  define v where "v = of_int m * pow2 e"
  have "e \<le> 0"
    using ilog2_small[of x] x by (simp add: e_def)
  then have p: "pow2 e = 1 / 2 ^ j"
    by (cases "e = 0") (simp_all add: pow2_def j_def)
  have q: "\<bar>x\<bar> / pow2 e = x * 2 ^ j"
    using x by (simp add: p)
  have "of_int (k * 2 ^ j) \<le> x * 2 ^ j" if "of_int k \<le> x" for k
    using that by simp
  then have m_lo: "k * 2 ^ j \<le> m" if "of_int k \<le> x" for k
    unfolding m_def q using that by (intro roundHalfEven_ge) blast
  have "x * 2 ^ j \<le> of_int (k * 2 ^ j)" if "x \<le> of_int k" for k
    using that by simp
  then have m_hi: "m \<le> k * 2 ^ j" if "x \<le> of_int k" for k
    unfolding m_def q using that by (intro roundHalfEven_le) blast
  have v: "v = of_int m / 2 ^ j"
    by (simp add: v_def p)
  have v_lo: "of_int k \<le> v" if "of_int k \<le> x" for k
  proof -
    have "of_int (k * 2 ^ j) \<le> (of_int m :: real)"
      using m_lo[OF that] by (simp only: of_int_le_iff)
    then show ?thesis
      by (simp add: v pos_le_divide_eq)
  qed
  have v_hi: "v \<le> of_int k" if "x \<le> of_int k" for k
  proof -
    have "(of_int m :: real) \<le> of_int (k * 2 ^ j)"
      using m_hi[OF that] by (simp only: of_int_le_iff)
    then show ?thesis
      by (simp add: v pos_divide_le_eq)
  qed
  have "v \<le> of_int (2 ^ 53)"
    using x by (intro v_hi) simp
  then have "v < pow2 1024"
    by (simp add: pow2_def)
  moreover have "m = 0 \<Longrightarrow> v = 0"
    by (simp add: v_def)
  ultimately have "roundToDouble x = Fin v"
    using x unfolding roundToDouble_def Let_def e_def[symmetric] m_def[symmetric] v_def[symmetric]
    by auto
  then show ?thesis
    using v_lo[OF lo] v_hi[OF hi] by blast
qed

lemma calculateCreditCost_exact_ceiling:
  assumes "0 < p" and "0 < r" and "p / r < 2 ^ 53"
  shows "calculateCreditCost (Fin p) (Fin r) = Fin (of_int \<lceil>p / r\<rceil>) \<or>
         (js_div (Fin p) (Fin r) = Fin (of_int (\<lceil>p / r\<rceil> - 1)) \<and>
          calculateCreditCost (Fin p) (Fin r) = Fin (max 1 (of_int (\<lceil>p / r\<rceil> - 1))))"
proof -
  define k where "k = \<lceil>p / r\<rceil>"
  have x: "0 < p / r"
    using assms by simp
  then have k: "1 \<le> k"
    by (simp add: k_def)
  have lo: "of_int (k - 1) \<le> p / r"
    unfolding k_def by linarith
  have hi: "p / r \<le> of_int k"
    unfolding k_def by linarith
  from roundToDouble_bracket[OF x assms(3) lo hi]
  obtain v where v: "roundToDouble (p / r) = Fin v" "of_int (k - 1) \<le> v" "v \<le> of_int k"
    by blast
  have d: "js_div (Fin p) (Fin r) = Fin v"
    using assms v(1) by (simp add: js_div_def isZero_def isInfinite_def valueOf_def)
  have "0 \<le> v"
    using v(2) k by simp
  then have c: "calculateCreditCost (Fin p) (Fin r) = Fin (max 1 (of_int \<lceil>v\<rceil>))"
    by (simp add: calculateCreditCost_def d credit_of_finite)
  show ?thesis
  proof (cases "v = of_int (k - 1)")
    case True
    then have "\<lceil>v\<rceil> = k - 1"
      by (simp only: ceiling_of_int)
    then show ?thesis
      using True d c by (simp add: k_def)
  next
    case False
    then have "of_int (k - 1) < v"
      using v(2) by simp
    then have "\<lceil>v\<rceil> = k"
      using v(3) by (intro ceiling_unique) simp_all
    moreover have "max 1 (of_int k) = (of_int k :: real)"
      using k by (intro max_absorb2) simp
    ultimately show ?thesis
      using c by (simp add: k_def)
  qed
qed



lemma double_007: "roundToDouble (7 / 100) = Fin (1261007895663739 / 18014398509481984)"
  by (simp add: roundToDouble_def ilog2_def bits_0 bits_pos pow2_def roundHalfEven_def Let_def)

lemma double_001: "roundToDouble (1 / 100) = Fin (5764607523034235 / 576460752303423488)"
  by (simp add: roundToDouble_def ilog2_def bits_0 bits_pos pow2_def roundHalfEven_def Let_def)

text \<open>
  The exact quotient of the doubles 0.275 and 0.025 lies above 11, but the
  division of the program rounds it to 11, so the cost is 11 credits; the
  division of the doubles 0.07 and 0.01 gives a double above 7, so the cost is
  8 credits.
\<close>

lemma exact_0275_0025:
  "(11::real) < (2476979795053773 / 9007199254740992) / (3602879701896397 / 144115188075855872)"
  by simp


lemma quotient_007_001:
  "js_div (Fin (1261007895663739 / 18014398509481984)) (Fin (5764607523034235 / 576460752303423488)) =
     Fin (7881299347898369 / 1125899906842624)"
  by (simp add: js_div_def isZero_def isInfinite_def valueOf_def roundToDouble_def ilog2_def
      bits_0 bits_pos pow2_def roundHalfEven_def Let_def)


lemma calculateCreditCost_007_001:
  "calculateCreditCost (roundToDouble (7 / 100)) (roundToDouble (1 / 100)) = Fin 8"
  by (simp add: calculateCreditCost_def double_007 double_001 quotient_007_001
      Math_ceil_def Math_max_def js_less_def)



lemma detectTaskType_first_match:
  "detectTaskType s = first_match keyword_groups (toLowerCase s)"
  by (simp add: detectTaskType_def keyword_groups_def Let_def)

lemma upsertModel_issues:
  "\<exists>ops. issued (fst (upsertModel m md env p)) = issued p @ SelectModel (endpoint_id m) # ops \<and>
         set ops \<subseteq> {UpdateModel (endpoint_id m) (taskTypeOf m md),
                    InsertModel (endpoint_id m) (taskTypeOf m md)}"
  by (cases "models_select env"; cases "models_write env")
     (simp_all add: upsertModel_def issue_def Let_def)

text \<open>
  C9. The task type of a reconciled model is the first match of the keyword
  groups, in the order video, audio, text, image, on the lower-cased category (or
  endpoint id), \<open>MULTIMODAL\<close> when no group matches; and that is the type every
  model row the pass writes carries.
\<close>

theorem taskType_priority_order:
  "taskTypeOf m md =
     first_match
       [(VIDEO, [js ''video'']),
        (AUDIO, [js ''audio'', js ''sound'', js ''music'', js ''speech'']),
        (TEXT, [js ''text'', js ''caption'', js ''llm'']),
        (IMAGE, [js ''image'', js ''flux'', js ''stable''])]
       (toLowerCase (js_or (category md) (endpoint_id m))) \<and>
   (\<exists>ops. issued (fst (upsertModel m md env p)) = issued p @ SelectModel (endpoint_id m) # ops \<and>
          set ops \<subseteq> {UpdateModel (endpoint_id m) (taskTypeOf m md),
                     InsertModel (endpoint_id m) (taskTypeOf m md)})"
  using detectTaskType_first_match upsertModel_issues
  by (simp add: taskTypeOf_def keyword_groups_def)

text \<open>
  C10. A category that is present and not empty alone decides the task type; the
  endpoint id is looked at only when the category is absent or empty. So a
  non-empty category without any keyword gives \<open>MULTIMODAL\<close>, whatever the
  endpoint id contains.
\<close>

theorem taskType_category_first:
  "(category md = Some c \<and> c \<noteq> [] \<longrightarrow> taskTypeOf m md = detectTaskType c) \<and>
   (category md = None \<or> category md = Some [] \<longrightarrow>
      taskTypeOf m md = detectTaskType (endpoint_id m)) \<and>
   (category md = Some c \<and> c \<noteq> [] \<and>
    first_match keyword_groups (toLowerCase c) = MULTIMODAL \<longrightarrow>
      taskTypeOf m md = MULTIMODAL)"
  by (auto simp: taskTypeOf_def js_or_def detectTaskType_first_match)

theorem taskType_category_first_witness:
  "js ''utility'' \<noteq> [] \<and>
   first_match keyword_groups (toLowerCase (js ''utility'')) = MULTIMODAL \<and>
   detectTaskType (js ''fal-ai/video-upscaler'') = VIDEO \<and>
   taskTypeOf \<lparr>endpoint_id = js ''fal-ai/video-upscaler'', metadata = None, openapi = None\<rparr>
     \<lparr>display_name = None, description = None, category = Some (js ''utility''),
      status = None\<rparr> = MULTIMODAL \<and>
   taskTypeOf \<lparr>endpoint_id = js ''fal-ai/video-upscaler'', metadata = None, openapi = None\<rparr>
     \<lparr>display_name = None, description = None, category = Some [], status = None\<rparr> = VIDEO"
  using taskType_category_first
    [of "\<lparr>display_name = None, description = None, category = Some (js ''utility''),
         status = None\<rparr>"
        "js ''utility''"
        "\<lparr>endpoint_id = js ''fal-ai/video-upscaler'', metadata = None, openapi = None\<rparr>"]
    taskType_category_first
    [of "\<lparr>display_name = None, description = None, category = Some [], status = None\<rparr>"
        "[]"
        "\<lparr>endpoint_id = js ''fal-ai/video-upscaler'', metadata = None, openapi = None\<rparr>"]
  by (simp add: js_def toLowerCase_def keyword_groups_def detectTaskType_def)

section \<open>Properties of fetchModels\<close>

lemma pageLoop_pages:
  assumes served: "\<forall>k<length pages. server k inc (cursorBefore pages k) = Response (pages ! k)"
    and more: "\<forall>k. Suc k < length pages \<longrightarrow>
                 has_more (pages ! k) \<and> truthy (next_cursor (pages ! k))"
    and last: "\<not> has_more (last pages)"
    and k: "k < length pages"
  shows "pageLoop server inc k (cursorBefore pages k) acc =
         Some (Inr (acc @ concat (map pageModels (drop k pages))))"
  using k
proof (induction "length pages - k" arbitrary: k acc)
  case 0
  then show ?case by simp
next
  case (Suc d)
  have reply: "server k inc (cursorBefore pages k) = Response (pages ! k)"
    using served Suc.prems by blast
  have dropk: "drop k pages = pages ! k # drop (Suc k) pages"
    using Suc.prems by (simp add: Cons_nth_drop_Suc)
  show ?case
  proof (cases "Suc k < length pages")
    case True
    then have hm: "has_more (pages ! k)" and tr: "truthy (next_cursor (pages ! k))"
      using more by blast+
    have next_c: "cursorBefore pages (Suc k) = next_cursor (pages ! k)"
      by (simp add: cursorBefore_def)
    have d: "d = length pages - Suc k"
      using Suc.hyps(2) by simp
    have ih: "pageLoop server inc (Suc k) (cursorBefore pages (Suc k))
                (acc @ pageModels (pages ! k)) =
              Some (Inr ((acc @ pageModels (pages ! k)) @
                         concat (map pageModels (drop (Suc k) pages))))"
      using Suc.hyps(1)[OF d True] .
    show ?thesis
      apply (subst pageLoop.simps)
      using reply hm tr ih next_c dropk
      by (simp add: pageModels_def split: option.splits)
  next
    case False
    then have len: "length pages - 1 = k" and ne: "pages \<noteq> []"
      and dr: "drop (Suc k) pages = []"
      using Suc.prems by auto
    have lastk: "last pages = pages ! k"
      using last_conv_nth[OF ne] len by simp
    show ?thesis
      apply (subst pageLoop.simps)
      using reply last lastk dropk dr
      by (simp add: pageModels_def truthy_def split: option.splits)
  qed
qed

text \<open>
  C7. When the requests of a fetch are answered by the pages of a non-empty
  sequence, each page but the last reporting \<^verbatim>\<open>has_more\<close> with a cursor and the
  last one reporting no more, the fetch returns, and what it returns is the
  models of all pages, concatenated in page order.
\<close>

theorem fetchModels_concatenates_pages:
  assumes "pages \<noteq> []"
    and "\<forall>k<length pages. server k includeSchemas (cursorBefore pages k) = Response (pages ! k)"
    and "\<forall>k. Suc k < length pages \<longrightarrow>
           has_more (pages ! k) \<and> truthy (next_cursor (pages ! k))"
    and "\<not> has_more (last pages)"
  shows "fetchModels server includeSchemas = Some (Inr (concat (map pageModels pages)))"
proof -
  have "0 < length pages"
    using assms(1) by simp
  from pageLoop_pages[of pages server includeSchemas 0 "[]", OF assms(2) assms(3) assms(4) this]
  show ?thesis
    by (simp add: fetchModels_def cursorBefore_def)
qed

theorem fetchModels_concatenates_pages_witness:
  "fetchModels
     (\<lambda>n expand cursor.
        if n = 0
        then Response \<lparr>next_cursor = Some (js ''c1''), has_more = True,
                       models = Some [\<lparr>endpoint_id = js ''a/one'', metadata = None,
                                       openapi = None\<rparr>]\<rparr>
        else Response \<lparr>next_cursor = None, has_more = False,
                       models = Some [\<lparr>endpoint_id = js ''a/two'', metadata = None,
                                       openapi = None\<rparr>]\<rparr>)
     True =
   Some (Inr [\<lparr>endpoint_id = js ''a/one'', metadata = None, openapi = None\<rparr>,
              \<lparr>endpoint_id = js ''a/two'', metadata = None, openapi = None\<rparr>])"
  using fetchModels_concatenates_pages
    [of "[\<lparr>next_cursor = Some (js ''c1''), has_more = True,
            models = Some [\<lparr>endpoint_id = js ''a/one'', metadata = None, openapi = None\<rparr>]\<rparr>,
          \<lparr>next_cursor = None, has_more = False,
            models = Some [\<lparr>endpoint_id = js ''a/two'', metadata = None, openapi = None\<rparr>]\<rparr>]"
        "\<lambda>n expand cursor.
           if n = 0
           then Response \<lparr>next_cursor = Some (js ''c1''), has_more = True,
                          models = Some [\<lparr>endpoint_id = js ''a/one'', metadata = None,
                                          openapi = None\<rparr>]\<rparr>
           else Response \<lparr>next_cursor = None, has_more = False,
                          models = Some [\<lparr>endpoint_id = js ''a/two'', metadata = None,
                                          openapi = None\<rparr>]\<rparr>"
        True]
  by (simp add: pageModels_def truthy_def js_def less_Suc_eq)

section \<open>Properties of fetchPricing\<close>

lemma requested_append: "requested (es @ es') = requested es @ requested es'"
  by (induction es rule: requested.induct) simp_all

lemma repliesTo_Request:
  "repliesTo server (es @ [Request b]) = repliesTo server es @ [server (length (requested es)) b]"
  by (simp add: repliesTo_def requested_append enumerate_append_eq)

lemma repliesTo_Sleep: "repliesTo server (es @ [Sleep ms]) = repliesTo server es"
  by (simp add: repliesTo_def requested_append)

lemma pricesOf_sanitized:
  "pricesOf (sanitizePricingResponse response) = quotesOf (Response response)"
  by (simp add: pricesOf_def sanitizePricingResponse_def quotesOf_def split: option.splits)

lemma consistent_sent:
  assumes "consistent server run"
  shows "consistent server
           (run\<lparr>requests := Suc (requests run), events := events run @ [Request b],
                allPrices := allPrices run @ quotesOf (server (requests run) b)\<rparr>)"
  using assms by (simp add: consistent_def requested_append repliesTo_Request)

lemma consistent_sleep:
  "consistent server run \<Longrightarrow> consistent server (run\<lparr>events := events run @ [Sleep ms]\<rparr>)"
  by (simp add: consistent_def requested_append repliesTo_Sleep)

lemma consistent_start: "consistent server startOfRun"
  by (simp add: consistent_def repliesTo_def startOfRun_def)

lemma specified_Response: "specified (Response response) \<longleftrightarrow> prices response \<noteq> None"
  by (simp add: specified_def isSuccess_def isRateLimitReply_def isNotFoundReply_def isOtherError_def)

lemma specified_Failure: "specified (Failure msg)"
  by (auto simp: specified_def isRateLimitReply_def isNotFoundReply_def isOtherError_def isSuccess_def)

lemma quotesOf_not_success: "\<not> isSuccess r \<Longrightarrow> quotesOf r = []"
  by (cases r) (auto simp: isSuccess_def quotesOf_def pricesOf_def)

lemma concat_quotes_filter:
  "concat (map quotesOf (filter isSuccess rs)) = concat (map quotesOf rs)"
  by (induction rs) (simp_all add: quotesOf_not_success)

text \<open>
  With replies of the four kinds the retry loop of a batch returns, and so does the
  loop over the batches; both keep the invariant.
\<close>

lemma retryLoop_returns:
  assumes kinds: "\<forall>n b. specified (server n b)"
    and "consistent server run"
    and "retries \<le> maxRetries"
  shows "\<exists>run' e. retryLoop server batch retries run = Some (run', e) \<and> consistent server run'"
  using assms(2,3)
proof (induction "maxRetries - retries" arbitrary: retries run)
  case 0
  then have r: "retries = maxRetries" by simp
  let ?sent = "run\<lparr>requests := Suc (requests run), events := events run @ [Request batch]\<rparr>"
  show ?case
  proof (cases "server (requests run) batch")
    case (Response response)
    then obtain ps where ps: "prices response = Some ps"
      using kinds specified_Response by (metis option.exhaust)
    have "consistent server (?sent\<lparr>allPrices := allPrices run @ quotesOf (Response response)\<rparr>)"
      using consistent_sent[OF "0.prems"(1), of batch] Response by simp
    then show ?thesis
      apply (subst retryLoop.simps)
      using Response ps r by (simp add: pricesOf_sanitized)
  next
    case (Failure message)
    have "consistent server ?sent"
      using consistent_sent[OF "0.prems"(1), of batch] Failure by (simp add: quotesOf_def)
    moreover have "\<not> Suc retries \<le> maxRetries" using r by simp
    ultimately show ?thesis
      apply (subst retryLoop.simps)
      using Failure "0.prems"(2) by (simp add: Let_def)
  qed
next
  case (Suc d)
  then have r: "retries < maxRetries" by simp
  let ?sent = "run\<lparr>requests := Suc (requests run), events := events run @ [Request batch]\<rparr>"
  show ?case
  proof (cases "server (requests run) batch")
    case (Response response)
    then obtain ps where ps: "prices response = Some ps"
      using kinds specified_Response by (metis option.exhaust)
    have "consistent server (?sent\<lparr>allPrices := allPrices run @ quotesOf (Response response)\<rparr>)"
      using consistent_sent[OF Suc.prems(1), of batch] Response by simp
    then show ?thesis
      apply (subst retryLoop.simps)
      using Response ps r by (simp add: pricesOf_sanitized)
  next
    case (Failure message)
    have c: "consistent server ?sent"
      using consistent_sent[OF Suc.prems(1), of batch] Failure by (simp add: quotesOf_def)
    let ?slept = "?sent\<lparr>events := events ?sent @ [Sleep (2 ^ Suc retries * 1000)]\<rparr>"
    have c': "consistent server ?slept"
      using consistent_sleep[OF c] .
    have d: "d = maxRetries - Suc retries" using Suc.hyps(2) by simp
    have le: "Suc retries \<le> maxRetries" using r by simp
    from Suc.hyps(1)[OF d c' le]
    obtain run' e where ih: "retryLoop server batch (Suc retries) ?slept = Some (run', e)"
      and cr: "consistent server run'" by blast
    show ?thesis
      apply (subst retryLoop.simps)
      using Failure c ih cr le Suc.prems(2) by (simp add: Let_def)
  qed
qed

lemma forLoop_returns:
  assumes kinds: "\<forall>n b. specified (server n b)"
    and "consistent server run"
  shows "\<exists>run' e. forLoop server ids i run = Some (run', e) \<and> consistent server run'"
  using assms
proof (induction server ids i run rule: forLoop.induct)
  case (1 server endpointIds i run)
  note kinds = "1.prems"(1)
  show ?case
  proof (cases "i < length endpointIds")
    case False
    then show ?thesis using "1.prems" by (subst forLoop.simps) simp
  next
    case True
    from retryLoop_returns[OF kinds "1.prems"(2), of 0 "slice endpointIds i (i + batchSize)"]
    obtain run' e where rl: "retryLoop server (slice endpointIds i (i + batchSize)) 0 run = Some (run', e)"
      and c: "consistent server run'" by auto
    show ?thesis
    proof (cases e)
      case (Some err)
      then show ?thesis using True rl c by (subst forLoop.simps) simp
    next
      case None
      let ?next = "if i + batchSize < length endpointIds
                then run'\<lparr>events := events run' @ [Sleep 5000]\<rparr> else run'"
      have "consistent server ?next" using c consistent_sleep by simp
      from "1.IH"[OF True rl refl None kinds this]
      show ?thesis using True rl None by (subst forLoop.simps) simp
    qed
  qed
qed

text \<open>
  A provider that keeps answering with a body that has no \<^verbatim>\<open>prices\<close> array is
  asked again without end: such a reply neither sets \<^verbatim>\<open>success\<close> nor counts as
  a retry.
\<close>

lemma retryLoop_no_prices_diverges:
  assumes "\<forall>n b. server n b = Response response" and "prices response = None"
    and "retries \<le> maxRetries"
  shows "retryLoop server batch retries run = None"
proof (rule ccontr)
  assume "retryLoop server batch retries run \<noteq> None"
  then obtain y where y: "retryLoop server batch retries run = Some y" by auto
  have "server = server \<longrightarrow> retries \<le> maxRetries \<longrightarrow> False"
    by (rule retryLoop.raw_induct
          [where P = "\<lambda>s b r u y. s = server \<longrightarrow> r \<le> maxRetries \<longrightarrow> False", OF _ y])
       (use assms(1,2) in \<open>auto simp: Let_def split: if_splits\<close>)
  then show False using assms(3) by simp
qed

text \<open>
  With every reply a success, a rate-limit error, a not-found error or another
  error, the fetch returns, and a response it returns holds the sanitized quotes
  of the requests that succeeded, in request order.
\<close>

lemma fetchPricing_returns_when_specified:
  assumes "\<forall>n b. specified (server n b)"
  shows "\<exists>es r. fetchPricing server ids = Some (es, r) \<and>
           (case r of
              Inl message \<Rightarrow> True
            | Inr response \<Rightarrow>
                prices response =
                  Some (concat (map quotesOf (filter isSuccess (repliesTo server es)))))"
proof -
  from forLoop_returns[OF assms consistent_start, of ids 0]
  obtain run' e where f: "forLoop server ids 0 startOfRun = Some (run', e)"
    and c: "consistent server run'" by blast
  show ?thesis
    using f c by (cases e) (simp_all add: fetchPricing_def consistent_def concat_quotes_filter)
qed

text \<open>
  C4. The claim: for every list of endpoint ids and every sequence of replies
  the fetch terminates. Evaluated for the one endpoint id \<^verbatim>\<open>a\<close> and a provider
  whose every reply is a body without a \<^verbatim>\<open>prices\<close> array, the case the test of
  line 236 is there for: the fetch does not return, neither a response nor an
  error. With an empty \<^verbatim>\<open>prices\<close> array in the same body it returns after one
  request.
\<close>

theorem fetchPricing_never_returns:
  "fetchPricing noPrices [js ''a''] = None \<and>
   fetchPricing (\<lambda>n batch. Response \<lparr>next_cursor = None, has_more = False, prices = Some []\<rparr>)
     [js ''a''] =
     Some ([Request [js ''a'']], Inr \<lparr>next_cursor = None, has_more = False, prices = Some []\<rparr>)"
proof -
  have l: "0 < length [js ''a'']"
    by simp
  have "retryLoop noPrices (slice [js ''a''] 0 (0 + batchSize)) 0 startOfRun = None"
    by (rule retryLoop_no_prices_diverges
          [of noPrices "\<lparr>next_cursor = None, has_more = False, prices = None\<rparr>"])
       (simp_all add: noPrices_def)
  then have "forLoop noPrices [js ''a''] 0 startOfRun = None"
    by (subst forLoop.simps) (simp add: l)
  then have n: "fetchPricing noPrices [js ''a''] = None"
    by (simp add: fetchPricing_def)
  let ?server = "\<lambda>n batch. Response \<lparr>next_cursor = None, has_more = False, prices = Some []\<rparr>"
  have r: "retryLoop ?server (slice [js ''a''] 0 (0 + batchSize)) 0 startOfRun =
        Some (\<lparr>allPrices = [], requests = 1, events = [Request [js ''a'']]\<rparr>, None)"
    by (subst retryLoop.simps)
       (simp add: startOfRun_def maxRetries_def slice_def batchSize_def pricesOf_def
          sanitizePricingResponse_def)
  have e: "forLoop ?server [js ''a''] (0 + batchSize)
             \<lparr>allPrices = [], requests = 1, events = [Request [js ''a'']]\<rparr> =
           Some (\<lparr>allPrices = [], requests = 1, events = [Request [js ''a'']]\<rparr>, None)"
    by (subst forLoop.simps) (simp add: batchSize_def)
  have b: "\<not> 0 + batchSize < length [js ''a'']"
    by (simp add: batchSize_def)
  have "forLoop ?server [js ''a''] 0 startOfRun =
        Some (\<lparr>allPrices = [], requests = 1, events = [Request [js ''a'']]\<rparr>, None)"
    by (subst forLoop.simps) (simp only: l r e b if_True if_False option.case prod.case)
  then have "fetchPricing ?server [js ''a''] =
        Some ([Request [js ''a'']], Inr \<lparr>next_cursor = None, has_more = False, prices = Some []\<rparr>)"
    by (simp add: fetchPricing_def)
  with n show ?thesis
    by simp
qed

lemma retryLoop_rate_limit_step:
  assumes "retries < maxRetries" "server (requests run) batch = Failure msg" "isRateLimit msg"
  shows "retryLoop server batch retries run =
         retryLoop server batch (Suc retries)
           (run\<lparr>requests := Suc (requests run),
                events := events run @ [Request batch, Sleep (2 ^ Suc retries * 1000)]\<rparr>)"
  apply (subst retryLoop.simps)
  using assms by (simp add: Let_def)

lemma retryLoop_rate_limit_last:
  assumes "retries = maxRetries" "server (requests run) batch = Failure msg" "isRateLimit msg"
  shows "retryLoop server batch retries run =
         Some (run\<lparr>requests := Suc (requests run), events := events run @ [Request batch]\<rparr>,
               Some msg)"
  apply (subst retryLoop.simps)
  using assms by (simp add: Let_def)

lemma isRateLimitReply_Failure:
  "isRateLimitReply r \<Longrightarrow> \<exists>msg. r = Failure msg \<and> isRateLimit msg"
  by (cases r) (simp_all add: isRateLimitReply_def)

lemma retryLoop_rate_limited:
  assumes "\<forall>k<4. isRateLimitReply (server (requests run + k) batch)"
  shows "\<exists>msg. server (requests run + 3) batch = Failure msg \<and> isRateLimit msg \<and>
           retryLoop server batch 0 run =
           Some (run\<lparr>requests := requests run + 4,
                     events := events run @
                       [Request batch, Sleep 2000, Request batch, Sleep 4000,
                        Request batch, Sleep 8000, Request batch]\<rparr>,
                 Some msg)"
proof -
  have r0: "isRateLimitReply (server (requests run) batch)"
    using assms[rule_format, of 0] by simp
  have r1: "isRateLimitReply (server (Suc (requests run)) batch)"
    using assms[rule_format, of 1] by simp
  have r2: "isRateLimitReply (server (Suc (Suc (requests run))) batch)"
    using assms[rule_format, of 2] by simp
  have r3: "isRateLimitReply (server (Suc (Suc (Suc (requests run)))) batch)"
    using assms[rule_format, of 3] by (simp add: numeral_3_eq_3)
  obtain m0 where m0: "server (requests run) batch = Failure m0" "isRateLimit m0"
    using isRateLimitReply_Failure[OF r0] by blast
  obtain m1 where m1: "server (Suc (requests run)) batch = Failure m1" "isRateLimit m1"
    using isRateLimitReply_Failure[OF r1] by blast
  obtain m2 where m2: "server (Suc (Suc (requests run))) batch = Failure m2" "isRateLimit m2"
    using isRateLimitReply_Failure[OF r2] by blast
  obtain m3 where m3: "server (Suc (Suc (Suc (requests run)))) batch = Failure m3" "isRateLimit m3"
    using isRateLimitReply_Failure[OF r3] by blast
  have "retryLoop server batch 0 run =
        Some (run\<lparr>requests := requests run + 4,
                  events := events run @
                    [Request batch, Sleep 2000, Request batch, Sleep 4000,
                     Request batch, Sleep 8000, Request batch]\<rparr>,
              Some m3)"
    apply (subst retryLoop_rate_limit_step[where msg = m0])
       apply (simp_all add: maxRetries_def m0)
    apply (subst retryLoop_rate_limit_step[where msg = m1])
       apply (simp_all add: maxRetries_def m1)
    apply (subst retryLoop_rate_limit_step[where msg = m2])
       apply (simp_all add: maxRetries_def m2)
    apply (subst retryLoop_rate_limit_last[where msg = m3])
       apply (simp_all add: maxRetries_def m3 numeral_3_eq_3)
    done
  then show ?thesis using m3 by (simp add: numeral_3_eq_3)
qed

text \<open>
  C5. When the request for a batch is answered by a rate-limit error four times
  in a row, the fetch makes exactly those four requests for the batch, pausing
  2000, 4000 and 8000 milliseconds between them in that order, and then leaves
  the loop over the batches with the error of the fourth reply: no later batch is
  requested. For the first batch of a fetch the whole outcome is given.
\<close>

theorem rate_limit_backoff:
  assumes "i < length ids"
    and "\<forall>k<4. isRateLimitReply (server (requests run + k) (slice ids i (i + batchSize)))"
  shows "\<exists>msg. server (requests run + 3) (slice ids i (i + batchSize)) = Failure msg \<and>
           isRateLimit msg \<and>
           forLoop server ids i run =
             Some (run\<lparr>requests := requests run + 4,
                       events := events run @
                         [Request (slice ids i (i + batchSize)), Sleep 2000,
                          Request (slice ids i (i + batchSize)), Sleep 4000,
                          Request (slice ids i (i + batchSize)), Sleep 8000,
                          Request (slice ids i (i + batchSize))]\<rparr>,
                   Some msg) \<and>
           (i = 0 \<and> run = startOfRun \<longrightarrow>
              fetchPricing server ids =
                Some ([Request (slice ids 0 batchSize), Sleep 2000,
                       Request (slice ids 0 batchSize), Sleep 4000,
                       Request (slice ids 0 batchSize), Sleep 8000,
                       Request (slice ids 0 batchSize)],
                      Inl (js ''Failed to fetch pricing: '' @ msg)))"
proof -
  from retryLoop_rate_limited[of server run "slice ids i (i + batchSize)", OF assms(2)]
  obtain msg where m: "server (requests run + 3) (slice ids i (i + batchSize)) = Failure msg"
      "isRateLimit msg"
    and r: "retryLoop server (slice ids i (i + batchSize)) 0 run =
           Some (run\<lparr>requests := requests run + 4,
                     events := events run @
                       [Request (slice ids i (i + batchSize)), Sleep 2000,
                        Request (slice ids i (i + batchSize)), Sleep 4000,
                        Request (slice ids i (i + batchSize)), Sleep 8000,
                        Request (slice ids i (i + batchSize))]\<rparr>,
                 Some msg)"
    by blast
  have f: "forLoop server ids i run =
             Some (run\<lparr>requests := requests run + 4,
                       events := events run @
                         [Request (slice ids i (i + batchSize)), Sleep 2000,
                          Request (slice ids i (i + batchSize)), Sleep 4000,
                          Request (slice ids i (i + batchSize)), Sleep 8000,
                          Request (slice ids i (i + batchSize))]\<rparr>,
                   Some msg)"
    using assms(1) r by (subst forLoop.simps) simp
  show ?thesis
    using m f by (auto simp: fetchPricing_def startOfRun_def)
qed

theorem rate_limit_backoff_witness:
  "fetchPricing (\<lambda>n batch. Failure (js ''429'')) [js ''a''] =
     Some ([Request [js ''a''], Sleep 2000, Request [js ''a''], Sleep 4000,
            Request [js ''a''], Sleep 8000, Request [js ''a'']],
           Inl (js ''Failed to fetch pricing: 429''))"
  using rate_limit_backoff[of 0 "[js ''a'']" "\<lambda>n batch. Failure (js ''429'')" startOfRun]
  by (simp add: isRateLimitReply_def isRateLimit_def js_def slice_def batchSize_def startOfRun_def)

lemma batchCount_ceiling: "int (batchCount ids) = \<lceil>real (length ids) / 50\<rceil>"
proof -
  have "\<lceil>real (length ids) / 50\<rceil> = \<lceil>of_int (int (length ids)) / (of_int 50 :: real)\<rceil>"
    by simp
  also have "\<dots> = - (- int (length ids) div 50)"
    by (rule ceiling_divide_eq_div)
  also have "\<dots> = int ((length ids + 49) div 50)"
    by (simp add: zdiv_int)
  finally show ?thesis
    by (simp add: batchCount_def batchSize_def)
qed

lemma batch_exists: "j < batchCount ids \<longleftrightarrow> j * batchSize < length ids"
proof -
  have "(j < (length ids + 49) div 50) \<longleftrightarrow> (Suc j \<le> (length ids + 49) div 50)"
    by auto
  also have "\<dots> \<longleftrightarrow> (Suc j * 50 \<le> length ids + 49)"
    by (simp only: less_eq_div_iff_mult_less_eq[of 50, simplified])
  also have "\<dots> \<longleftrightarrow> (j * 50 < length ids)"
    by auto
  finally show ?thesis
    by (simp add: batchCount_def batchSize_def)
qed

lemma batchCount_covers: "length ids \<le> batchCount ids * batchSize"
proof -
  have "\<not> batchCount ids * batchSize < length ids"
    using batch_exists[of "batchCount ids" ids] by simp
  then show ?thesis by simp
qed

lemma length_batchAt: "length (batchAt ids j) \<le> 50"
  by (simp add: batchAt_def slice_def batchSize_def)

lemma concat_batches_take:
  "concat (map (batchAt ids) [0..<k]) = take (k * batchSize) ids"
proof (induction k)
  case 0
  show ?case by simp
next
  case (Suc k)
  have "Suc k * batchSize = k * batchSize + batchSize"
    by simp
  then have "take (Suc k * batchSize) ids = take (k * batchSize) ids @ batchAt ids k"
    using take_add[of "k * batchSize" batchSize ids]
    by (simp only: batchAt_def slice_def add_diff_cancel_left')
  with Suc show ?case by simp
qed

lemma concat_batches: "concat (map (batchAt ids) [0..<batchCount ids]) = ids"
  using batchCount_covers[of ids] by (simp add: concat_batches_take)

lemma answersAtOnce_cases:
  assumes "answersAtOnce r"
  obtains response ps where "r = Response response" "prices response = Some ps"
  | msg where "r = Failure msg" "\<not> isRateLimit msg" "isNotFound msg"
  using assms
  by (cases r) (auto simp: answersAtOnce_def isSuccess_def isNotFoundReply_def)

lemma retryLoop_at_once:
  assumes "answersAtOnce (server (requests run) batch)"
  shows "retryLoop server batch 0 run =
         Some (run\<lparr>requests := Suc (requests run), events := events run @ [Request batch],
                   allPrices := allPrices run @ quotesOf (server (requests run) batch)\<rparr>, None)"
  using assms
proof (cases rule: answersAtOnce_cases)
  case (1 response ps)
  then show ?thesis
    apply (subst retryLoop.simps)
    by (simp add: Let_def pricesOf_sanitized)
next
  case (2 msg)
  then show ?thesis
    apply (subst retryLoop.simps)
    by (simp add: Let_def quotesOf_def)
qed

lemma forLoop_at_once:
  assumes once: "\<forall>j. j * batchSize < length ids \<longrightarrow> answersAtOnce (server j (batchAt ids j))"
    and "j0 \<le> batchCount ids"
    and "requests run = j0"
  shows "\<exists>run'. forLoop server ids (j0 * batchSize) run = Some (run', None) \<and>
           requested (events run') = requested (events run) @ map (batchAt ids) [j0..<batchCount ids] \<and>
           allPrices run' = allPrices run @
             concat (map (\<lambda>j. quotesOf (server j (batchAt ids j))) [j0..<batchCount ids])"
  using assms(2,3)
proof (induction "batchCount ids - j0" arbitrary: j0 run)
  case 0
  then have "j0 = batchCount ids" by simp
  then have "\<not> j0 * batchSize < length ids"
    using batch_exists[of j0 ids] by simp
  then show ?case
    apply (subst forLoop.simps)
    using \<open>j0 = batchCount ids\<close> by simp
next
  case (Suc d)
  then have lt: "j0 < batchCount ids" by simp
  then have ex: "j0 * batchSize < length ids"
    using batch_exists by simp
  let ?b = "batchAt ids j0"
  have b: "slice ids (j0 * batchSize) (j0 * batchSize + batchSize) = ?b"
    by (simp add: batchAt_def)
  have a: "answersAtOnce (server (requests run) ?b)"
    using once ex Suc.prems(2) by simp
  let ?sent = "run\<lparr>requests := Suc (requests run), events := events run @ [Request ?b],
                   allPrices := allPrices run @ quotesOf (server (requests run) ?b)\<rparr>"
  let ?next = "if j0 * batchSize + batchSize < length ids
               then ?sent\<lparr>events := events ?sent @ [Sleep 5000]\<rparr> else ?sent"
  have "forLoop server ids (j0 * batchSize) run =
        forLoop server ids (j0 * batchSize + batchSize) ?next"
    apply (subst forLoop.simps)
    using ex retryLoop_at_once[of server run ?b, OF a] b by simp
  moreover have "j0 * batchSize + batchSize = Suc j0 * batchSize"
    by simp
  ultimately have step: "forLoop server ids (j0 * batchSize) run =
      forLoop server ids (Suc j0 * batchSize) ?next"
    by (simp only:)
  have d: "d = batchCount ids - Suc j0" using Suc.hyps(2) by simp
  have le: "Suc j0 \<le> batchCount ids" using lt by simp
  have rq: "requests ?next = Suc j0" using Suc.prems(2) by simp
  from Suc.hyps(1)[OF d le rq]
  obtain run' where r: "forLoop server ids (Suc j0 * batchSize) ?next = Some (run', None)"
    and rq': "requested (events run') = requested (events ?next) @ map (batchAt ids) [Suc j0..<batchCount ids]"
    and ap: "allPrices run' = allPrices ?next @
             concat (map (\<lambda>j. quotesOf (server j (batchAt ids j))) [Suc j0..<batchCount ids])"
    by blast
  have upt: "[j0..<batchCount ids] = j0 # [Suc j0..<batchCount ids]"
    using lt by (simp add: upt_conv_Cons)
  show ?case
    using step r rq' ap upt Suc.prems(2) by (simp add: requested_append)
qed

text \<open>
  C6. When every batch is answered at the first attempt, by a success or by a
  not-found error, the fetch returns a response after requesting the batches
  \<open>batchAt ids 0\<close>, \<open>batchAt ids 1\<close>, ... once each: their number is the
  ceiling of N / 50, none has more than 50 ids, and together they are the ids in
  list order. The prices are the quotes of the replies in order, where a
  not-found reply has no quotes.
\<close>

theorem fetchPricing_batches:
  assumes "\<forall>j. j * batchSize < length ids \<longrightarrow> answersAtOnce (server j (batchAt ids j))"
  shows "\<exists>es response.
           fetchPricing server ids = Some (es, Inr response) \<and>
           requested es = map (batchAt ids) [0..<length (requested es)] \<and>
           int (length (requested es)) = \<lceil>real (length ids) / 50\<rceil> \<and>
           (\<forall>b \<in> set (requested es). length b \<le> 50) \<and>
           concat (requested es) = ids \<and>
           prices response =
             Some (concat (map (\<lambda>j. quotesOf (server j (batchAt ids j)))
                             [0..<length (requested es)])) \<and>
           (\<forall>j. isNotFoundReply (server j (batchAt ids j)) \<longrightarrow>
                quotesOf (server j (batchAt ids j)) = [])"
proof -
  from forLoop_at_once[of ids server 0 "startOfRun", OF assms]
  obtain run' where f: "forLoop server ids 0 startOfRun = Some (run', None)"
    and rq: "requested (events run') = map (batchAt ids) [0..<batchCount ids]"
    and ap: "allPrices run' = concat (map (\<lambda>j. quotesOf (server j (batchAt ids j))) [0..<batchCount ids])"
    by (auto simp: startOfRun_def)
  have len: "length (requested (events run')) = batchCount ids"
    using rq by simp
  have nf: "\<forall>j. isNotFoundReply (server j (batchAt ids j)) \<longrightarrow>
                quotesOf (server j (batchAt ids j)) = []"
    by (auto simp: isNotFoundReply_def quotesOf_def split: reply.splits)
  have small: "\<forall>b \<in> set (requested (events run')). length b \<le> 50"
    using rq length_batchAt by auto
  show ?thesis
    using f rq ap len nf small batchCount_ceiling[of ids] concat_batches[of ids]
    by (simp add: fetchPricing_def)
qed

theorem fetchPricing_batches_witness:
  "\<exists>es response.
     fetchPricing (\<lambda>n batch. if n = 0 then Failure (js ''404'')
                   else Response \<lparr>next_cursor = None, has_more = False,
                          prices = Some [\<lparr>endpoint_id = js ''a'', unit_price = Fin 1,
                                          unit = js ''call'', currency = js ''USD''\<rparr>]\<rparr>)
       (replicate 51 (js ''a'')) = Some (es, Inr response) \<and>
     length (requested es) = 2 \<and>
     concat (requested es) = replicate 51 (js ''a'') \<and>
     prices response = Some [\<lparr>endpoint_id = js ''a'', unit_price = Fin 1,
                                          unit = js ''call'', currency = js ''USD''\<rparr>]"
proof -
  let ?server = "\<lambda>(n::nat) (batch::jsstring list). if n = 0 then Failure (js ''404'')
                   else Response \<lparr>next_cursor = None, has_more = False,
                          prices = Some [\<lparr>endpoint_id = js ''a'', unit_price = Fin 1,
                                          unit = js ''call'', currency = js ''USD''\<rparr>]\<rparr>"
  let ?ids = "replicate 51 (js ''a'')"
  have h: "\<forall>j. j * batchSize < length ?ids \<longrightarrow> answersAtOnce (?server j (batchAt ?ids j))"
    by (simp add: answersAtOnce_def isSuccess_def isNotFoundReply_def isRateLimit_def
        isNotFound_def js_def)
  from fetchPricing_batches[OF h]
  obtain es response where f: "fetchPricing ?server ?ids = Some (es, Inr response)"
    and n: "int (length (requested es)) = \<lceil>real (length ?ids) / 50\<rceil>"
    and c: "concat (requested es) = ?ids"
    and p: "prices response =
             Some (concat (map (\<lambda>j. quotesOf (?server j (batchAt ?ids j)))
                             [0..<length (requested es)]))"
    by blast
  have n2: "length (requested es) = 2"
    using n by simp
  have upt2: "[0..<2] = [0, Suc 0]"
    by (simp add: numeral_2_eq_2)
  have "prices response = Some [\<lparr>endpoint_id = js ''a'', unit_price = Fin 1,
                                          unit = js ''call'', currency = js ''USD''\<rparr>]"
    using p unfolding n2 upt2
    by (simp add: quotesOf_def pricesOf_def sanitizePrice_def
        client_sanitizeString_def replaceSurrogates_def isSurrogate_def js_def)
  then show ?thesis
    using f n2 c by blast
qed

section \<open>Properties of the sync pass\<close>

text \<open>
  What each step of the \<^verbatim>\<open>try\<close> block throws and what it changes in the
  result, and which model lookups it issues.
\<close>

lemma andThen_alt:
  "andThen f g p = (case snd (f p) of None \<Rightarrow> g (fst (f p)) | Some e \<Rightarrow> (fst (f p), Some e))"
  by (simp add: andThen_def split: prod.splits option.splits)

lemma upsertModel_effect:
  "snd (upsertModel m md env p) = modelThrows env"
  "errors (result (fst (upsertModel m md env p))) = errors (result p)"
  "pricingUpdated (result (fst (upsertModel m md env p))) = pricingUpdated (result p)"
  "parametersAdded (result (fst (upsertModel m md env p))) = parametersAdded (result p)"
  "modelsAdded (result (fst (upsertModel m md env p))) =
     modelsAdded (result p) +
       (if models_select env = NoRow \<and> models_write env = Written then 1 else 0)"
  "modelsUpdated (result (fst (upsertModel m md env p))) =
     modelsUpdated (result p) +
       (if models_select env = Row \<and> models_write env = Written then 1 else 0)"
  "filter isSelectModel (issued (fst (upsertModel m md env p))) =
     filter isSelectModel (issued p) @ [SelectModel (endpoint_id m)]"
  by (cases "models_select env"; cases "models_write env";
      simp add: upsertModel_def issue_def Let_def modelThrows_def isSelectModel_def)+

lemma replaceParameters_effect:
  "snd (replaceParameters m env p) = parametersThrow m env"
  "errors (result (fst (replaceParameters m env p))) = errors (result p)"
  "pricingUpdated (result (fst (replaceParameters m env p))) = pricingUpdated (result p)"
  "modelsAdded (result (fst (replaceParameters m env p))) = modelsAdded (result p)"
  "modelsUpdated (result (fst (replaceParameters m env p))) = modelsUpdated (result p)"
  "parametersAdded (result (fst (replaceParameters m env p))) =
     parametersAdded (result p) +
       (if parametersThrow m env = None
        then (case parametersOf m env of Inr n \<Rightarrow> n | Inl e \<Rightarrow> 0) else 0)"
  "filter isSelectModel (issued (fst (replaceParameters m env p))) =
     filter isSelectModel (issued p)"
  by (cases "parametersOf m env"; cases "parameters_delete env"; cases "parameters_insert env";
      simp add: replaceParameters_def issue_def Let_def parametersThrow_def isSelectModel_def)+

lemma upsertPricing_effect:
  "snd (upsertPricing cr pm m env p) = pricingThrows env"
  "errors (result (fst (upsertPricing cr pm m env p))) = errors (result p)"
  "modelsAdded (result (fst (upsertPricing cr pm m env p))) = modelsAdded (result p)"
  "modelsUpdated (result (fst (upsertPricing cr pm m env p))) = modelsUpdated (result p)"
  "parametersAdded (result (fst (upsertPricing cr pm m env p))) = parametersAdded (result p)"
  "pricingUpdated (result (fst (upsertPricing cr pm m env p))) =
     pricingUpdated (result p) + (if pricingThrows env = None then 1 else 0)"
  "filter isSelectModel (issued (fst (upsertPricing cr pm m env p))) =
     filter isSelectModel (issued p)"
  by (cases "pricing_select env"; cases "pricing_write env";
      simp add: upsertPricing_def issue_def Let_def pricingThrows_def isSelectModel_def)+

lemma tryBlock_effect:
  "snd (tryBlock cr pm m md env p) = thrownBy m env"
  "errors (result (fst (tryBlock cr pm m md env p))) = errors (result p)"
  "modelsAdded (result (fst (tryBlock cr pm m md env p))) =
     modelsAdded (result p) +
       (if models_select env = NoRow \<and> models_write env = Written then 1 else 0)"
  "modelsUpdated (result (fst (tryBlock cr pm m md env p))) =
     modelsUpdated (result p) +
       (if models_select env = Row \<and> models_write env = Written then 1 else 0)"
  "parametersAdded (result (fst (tryBlock cr pm m md env p))) =
     parametersAdded (result p) +
       (if modelThrows env = None \<and> parametersThrow m env = None
        then (case parametersOf m env of Inr n \<Rightarrow> n | Inl e \<Rightarrow> 0) else 0)"
  "pricingUpdated (result (fst (tryBlock cr pm m md env p))) =
     pricingUpdated (result p) + (if thrownBy m env = None then 1 else 0)"
  "filter isSelectModel (issued (fst (tryBlock cr pm m md env p))) =
     filter isSelectModel (issued p) @ [SelectModel (endpoint_id m)]"
  by (cases "modelThrows env"; cases "parametersThrow m env";
      simp add: tryBlock_def andThen_alt upsertModel_effect replaceParameters_effect
        upsertPricing_effect thrownBy_def firstOf_def)+

text \<open>One turn of the loop adds to the pass what is specified for its model.\<close>

lemma reconcile_effect:
  "errors (result (reconcile cr pm me p)) = errors (result p) @ errorEntries me"
  "pricingUpdated (result (reconcile cr pm me p)) =
     pricingUpdated (result p) + (if completes me then 1 else 0)"
  "modelsAdded (result (reconcile cr pm me p)) =
     modelsAdded (result p) + (if rowInserted me then 1 else 0)"
  "modelsUpdated (result (reconcile cr pm me p)) =
     modelsUpdated (result p) + (if rowUpdated me then 1 else 0)"
  "parametersAdded (result (reconcile cr pm me p)) =
     parametersAdded (result p) + parametersInserted me"
  "filter isSelectModel (issued (reconcile cr pm me p)) =
     filter isSelectModel (issued p) @
       (if valid (fst me) then [SelectModel (endpoint_id (fst me))] else [])"
proof -
  have tb: "tryBlock cr pm (fst me) md (snd me) p =
          (fst (tryBlock cr pm (fst me) md (snd me) p), thrownBy (fst me) (snd me))" for md
    using tryBlock_effect(1)[of cr pm "fst me" md "snd me" p] by (metis prod.collapse)
  have r: "reconcile cr pm me p =
        (case metadata (fst me) of
           None \<Rightarrow> pushError (js ''unknown'') (js ''Model missing endpoint_id or metadata'') p
         | Some md \<Rightarrow>
             if endpoint_id (fst me) = []
             then pushError (js ''unknown'') (js ''Model missing endpoint_id or metadata'') p
             else (case thrownBy (fst me) (snd me) of
                     None \<Rightarrow> fst (tryBlock cr pm (fst me) md (snd me) p)
                   | Some e \<Rightarrow>
                       pushError (endpoint_id (fst me)) (errorMsg e)
                         (fst (tryBlock cr pm (fst me) md (snd me) p))))"
    unfolding reconcile_def Let_def
    by (subst tb) (simp add: js_or_def split: option.splits)
  show "errors (result (reconcile cr pm me p)) = errors (result p) @ errorEntries me"
    "pricingUpdated (result (reconcile cr pm me p)) =
       pricingUpdated (result p) + (if completes me then 1 else 0)"
    "modelsAdded (result (reconcile cr pm me p)) =
       modelsAdded (result p) + (if rowInserted me then 1 else 0)"
    "modelsUpdated (result (reconcile cr pm me p)) =
       modelsUpdated (result p) + (if rowUpdated me then 1 else 0)"
    "parametersAdded (result (reconcile cr pm me p)) =
       parametersAdded (result p) + parametersInserted me"
    "filter isSelectModel (issued (reconcile cr pm me p)) =
       filter isSelectModel (issued p) @
         (if valid (fst me) then [SelectModel (endpoint_id (fst me))] else [])"
    unfolding r
    by (cases "metadata (fst me)"; cases "thrownBy (fst me) (snd me)";
        simp add: pushError_def tryBlock_effect errorEntries_def completes_def rowInserted_def
          rowUpdated_def parametersInserted_def valid_def)+
qed

lemma sum_list_indicator: "sum_list (map (\<lambda>x. if P x then 1 else 0) xs) = length (filter P xs)"
  by (induction xs) simp_all

lemma processModels_effect:
  "errors (result (processModels cr pm ms p)) = errors (result p) @ concat (map errorEntries ms)"
  "pricingUpdated (result (processModels cr pm ms p)) =
     pricingUpdated (result p) + length (filter completes ms)"
  "modelsAdded (result (processModels cr pm ms p)) =
     modelsAdded (result p) + length (filter rowInserted ms)"
  "modelsUpdated (result (processModels cr pm ms p)) =
     modelsUpdated (result p) + length (filter rowUpdated ms)"
  "parametersAdded (result (processModels cr pm ms p)) =
     parametersAdded (result p) + sum_list (map parametersInserted ms)"
  "filter isSelectModel (issued (processModels cr pm ms p)) =
     filter isSelectModel (issued p) @
       map (\<lambda>me. SelectModel (endpoint_id (fst me))) (filter (\<lambda>me. valid (fst me)) ms)"
  by (induction ms arbitrary: p; simp add: reconcile_effect)+

lemma syncPass_effect:
  "errors (result (syncPass cr pm ms)) = concat (map errorEntries ms)"
  "pricingUpdated (result (syncPass cr pm ms)) = length (filter completes ms)"
  "modelsAdded (result (syncPass cr pm ms)) = length (filter rowInserted ms)"
  "modelsUpdated (result (syncPass cr pm ms)) = length (filter rowUpdated ms)"
  "parametersAdded (result (syncPass cr pm ms)) = sum_list (map parametersInserted ms)"
  "filter isSelectModel (issued (syncPass cr pm ms)) =
     map (\<lambda>me. SelectModel (endpoint_id (fst me))) (filter (\<lambda>me. valid (fst me)) ms)"
  by (simp_all add: syncPass_def processModels_effect emptyPass_def initialResult_def)

text \<open>The example inputs.\<close>

lemma exampleModel_valid: "i \<noteq> [] \<Longrightarrow> valid (exampleModel i)"
  by (simp add: valid_def exampleModel_def)

lemma exampleModel_hasOpenapi: "hasOpenapi (exampleModel i)"
  by (simp add: hasOpenapi_def exampleModel_def exampleOpenapi_def truthyValue_def)

lemma exampleModel_id: "endpoint_id (exampleModel i) = i"
  by (simp add: exampleModel_def)

lemma js_nonempty: "js ''a'' \<noteq> []" "js ''b'' \<noteq> []" "js ''c'' \<noteq> []"
  by (simp_all add: js_def)

lemma threeModels_facts:
  "concat (map errorEntries threeModels) = [\<lparr>model = js ''b'', error = js ''denied''\<rparr>]"
  "length (filter completes threeModels) = 2"
  "length (filter rowInserted threeModels) = 3"
  "length (filter rowUpdated threeModels) = 0"
  "sum_list (map parametersInserted threeModels) = 4"
  by (simp_all add: threeModels_def errorEntries_def completes_def rowInserted_def rowUpdated_def
      parametersInserted_def exampleModel_valid js_nonempty thrownBy_def firstOf_def
      modelThrows_def parametersThrow_def pricingThrows_def parametersOf_def
      exampleModel_hasOpenapi exampleModel_id allWritten_def errorMsg_def)

lemma lateFailure_facts:
  "concat (map errorEntries lateFailure) = [\<lparr>model = js ''b'', error = js ''timeout''\<rparr>]"
  "length (filter completes lateFailure) = 1"
  "length (filter rowInserted lateFailure) = 2"
  "length (filter rowUpdated lateFailure) = 0"
  "sum_list (map parametersInserted lateFailure) = 4"
  by (simp_all add: lateFailure_def errorEntries_def completes_def rowInserted_def rowUpdated_def
      parametersInserted_def exampleModel_valid js_nonempty thrownBy_def firstOf_def
      modelThrows_def parametersThrow_def pricingThrows_def parametersOf_def
      exampleModel_hasOpenapi exampleModel_id allWritten_def errorMsg_def)

text \<open>
  C2, as stated, at a pass over three models where the insert of the parameters
  of the second resolves with an error, which line 324 throws: one error entry
  for the second model and two completed models, but three models counted as
  added, since \<^verbatim>\<open>modelsAdded\<close> is incremented before the parameters are
  replaced. And at a pass over two models where the lookup of the pricing record
  of the second is rejected: one completed model, but two models and the
  parameters of both counted.
\<close>

theorem counts_include_failed_model:
  "errors (result (syncPass (Fin 1) Map.empty threeModels)) =
     [\<lparr>model = js ''b'', error = js ''denied''\<rparr>] \<and>
   length (filter completes threeModels) = 2 \<and>
   modelsAdded (result (syncPass (Fin 1) Map.empty threeModels)) = 3 \<and>
   errors (result (syncPass (Fin 1) Map.empty lateFailure)) =
     [\<lparr>model = js ''b'', error = js ''timeout''\<rparr>] \<and>
   length (filter completes lateFailure) = 1 \<and>
   modelsAdded (result (syncPass (Fin 1) Map.empty lateFailure)) = 2 \<and>
   parametersAdded (result (syncPass (Fin 1) Map.empty lateFailure)) = 4"
  by (simp add: syncPass_effect threeModels_facts lateFailure_facts)

text \<open>
  C2, amended. For every list of models: the errors of the pass are the error
  entries of the models, in model order, one for each valid model that throws,
  with its id and the message of what was thrown; every valid model is looked
  up, whatever happened to the models before it. \<^verbatim>\<open>pricingUpdated\<close> counts
  the models that completed. \<^verbatim>\<open>modelsAdded\<close> counts the valid models whose
  row was inserted and \<^verbatim>\<open>modelsUpdated\<close> those whose row was updated, and
  \<^verbatim>\<open>parametersAdded\<close> adds up the parameters of the models whose parameters
  were inserted, also when a later step of the model threw.
\<close>

theorem pass_isolates_failures:
  "errors (result (syncPass cr pm ms)) = concat (map errorEntries ms) \<and>
   filter isSelectModel (issued (syncPass cr pm ms)) =
     map (\<lambda>me. SelectModel (endpoint_id (fst me))) (filter (\<lambda>me. valid (fst me)) ms) \<and>
   pricingUpdated (result (syncPass cr pm ms)) = length (filter completes ms) \<and>
   modelsAdded (result (syncPass cr pm ms)) = length (filter rowInserted ms) \<and>
   modelsUpdated (result (syncPass cr pm ms)) = length (filter rowUpdated ms) \<and>
   parametersAdded (result (syncPass cr pm ms)) = sum_list (map parametersInserted ms)"
  by (simp add: syncPass_effect)

theorem pass_isolates_failures_witness:
  "errors (result (syncPass (Fin 1) Map.empty mixedPass)) =
     [\<lparr>model = js ''b'', error = js ''timeout''\<rparr>,
      \<lparr>model = js ''unknown'', error = js ''Model missing endpoint_id or metadata''\<rparr>] \<and>
   filter isSelectModel (issued (syncPass (Fin 1) Map.empty mixedPass)) =
     [SelectModel (js ''a''), SelectModel (js ''b''), SelectModel (js ''c'')] \<and>
   pricingUpdated (result (syncPass (Fin 1) Map.empty mixedPass)) = 2 \<and>
   modelsAdded (result (syncPass (Fin 1) Map.empty mixedPass)) = 2 \<and>
   modelsUpdated (result (syncPass (Fin 1) Map.empty mixedPass)) = 1 \<and>
   parametersAdded (result (syncPass (Fin 1) Map.empty mixedPass)) = 4"
proof -
  have v: "valid (exampleModel (js ''a''))" "valid (exampleModel (js ''b''))"
    "valid ((exampleModel (js ''c''))\<lparr>openapi := None\<rparr>)"
    "\<not> valid ((exampleModel (js ''d''))\<lparr>metadata := None\<rparr>)"
    by (simp_all add: valid_def exampleModel_def js_def)
  have o: "hasOpenapi (exampleModel (js ''a''))" "hasOpenapi (exampleModel (js ''b''))"
    "\<not> hasOpenapi ((exampleModel (js ''c''))\<lparr>openapi := None\<rparr>)"
    by (simp_all add: hasOpenapi_def exampleModel_def exampleOpenapi_def truthyValue_def)
  have i: "endpoint_id ((exampleModel (js ''c''))\<lparr>openapi := None\<rparr>) = js ''c''"
    by (simp add: exampleModel_def)
  show ?thesis
    using pass_isolates_failures[of "Fin 1" Map.empty mixedPass]
    by (simp add: mixedPass_def errorEntries_def completes_def rowInserted_def rowUpdated_def
      parametersInserted_def v o i thrownBy_def firstOf_def modelThrows_def parametersThrow_def
      pricingThrows_def parametersOf_def exampleModel_id allWritten_def errorMsg_def)
qed

text \<open>
  A pricing write that resolves with an error is not told apart from one that
  succeeded.
\<close>

lemma upsertPricing_ignores_error:
  "upsertPricing cr pm m (env\<lparr>pricing_write := WriteError e\<rparr>) =
   upsertPricing cr pm m (env\<lparr>pricing_write := Written\<rparr>)"
  by (rule ext) (cases "pricing_select env"; simp add: upsertPricing_def Let_def)

lemma upsertModel_pricing_write:
  "upsertModel m md (env\<lparr>pricing_write := w\<rparr>) = upsertModel m md env"
  by (rule ext)
     (simp add: upsertModel_def Let_def cong: select_reply.case_cong write_reply.case_cong)

lemma replaceParameters_pricing_write:
  "replaceParameters m (env\<lparr>pricing_write := w\<rparr>) = replaceParameters m env"
  by (rule ext)
     (simp add: replaceParameters_def parametersOf_def Let_def
        cong: sum.case_cong write_reply.case_cong if_cong)

lemma reconcile_ignores_pricing_error:
  "reconcile cr pm (m, env\<lparr>pricing_write := WriteError e\<rparr>) p =
   reconcile cr pm (m, env\<lparr>pricing_write := Written\<rparr>) p"
proof -
  have "tryBlock cr pm m md (env\<lparr>pricing_write := WriteError e\<rparr>) =
        tryBlock cr pm m md (env\<lparr>pricing_write := Written\<rparr>)" for md
    by (simp add: tryBlock_def upsertPricing_ignores_error
        upsertModel_pricing_write replaceParameters_pricing_write)
  then show ?thesis
    by (simp add: reconcile_def cong: option.case_cong if_cong)
qed

text \<open>
  C3. The claim: a failed write of the pricing record becomes an error entry of
  the model, which is then not counted in \<^verbatim>\<open>pricingUpdated\<close>, as for the model
  row. Evaluated for a model whose pricing insert resolves with an error: no
  error entry, and \<^verbatim>\<open>pricingUpdated\<close> is one; the same error from the insert of
  the model row gives an entry.
\<close>

theorem pricing_write_error_not_recorded:
  "result (reconcile (Fin 1) Map.empty
     (exampleModel (js ''a''), allWritten\<lparr>pricing_write := WriteError (ErrorObject (js ''denied''))\<rparr>)
     emptyPass) =
     initialResult\<lparr>modelsAdded := 1, parametersAdded := 2, pricingUpdated := 1\<rparr> \<and>
   result (reconcile (Fin 1) Map.empty
     (exampleModel (js ''a''), allWritten\<lparr>models_write := WriteError (ErrorObject (js ''denied''))\<rparr>)
     emptyPass) =
     initialResult\<lparr>errors := [\<lparr>model = js ''a'', error = js ''denied''\<rparr>]\<rparr>"
proof -
  have ne: "js ''a'' \<noteq> []"
    by (simp add: js_def)
  have o: "parametersOf (exampleModel (js ''a'')) env = parsed env" for env
    by (simp add: parametersOf_def exampleModel_hasOpenapi)
  have m: "endpoint_id (exampleModel (js ''a'')) = js ''a''"
    "metadata (exampleModel (js ''a'')) =
       Some \<lparr>display_name = None, description = None, category = None, status = None\<rparr>"
    by (simp_all add: exampleModel_def)
  show ?thesis
    using ne
    by (simp add: reconcile_def tryBlock_def andThen_def upsertModel_def
      replaceParameters_def upsertPricing_def pushError_def issue_def emptyPass_def o m
      allWritten_def initialResult_def Let_def js_or_def errorMsg_def)
qed

end
